theory Spec2Isabelle
  imports Complex_Main
begin

section \<open>Python values used by \<^verbatim>\<open>dataset.py\<close>\<close>

text \<open>
  The module indexes a directory tree of images: \<^verbatim>\<open>one_hot_encoded\<close>, the class
  \<^verbatim>\<open>DataSet\<close> (constructor, \<^verbatim>\<open>_get_filenames\<close>, \<^verbatim>\<open>get_paths\<close>,
  \<^verbatim>\<open>get_training_set\<close>, \<^verbatim>\<open>get_test_set\<close>, \<^verbatim>\<open>copy_files\<close>) and
  \<^verbatim>\<open>load_cached\<close>. Python exceptions are values of the type \<open>error\<close>; a function
  that may raise returns \<open>error + 'a\<close> with \<open>Inl\<close> for the exception. Python integers
  are \<open>int\<close>, strings are \<open>string\<close> (ASCII file names), floats that only ever hold
  \<open>0.0\<close> and \<open>1.0\<close> are \<open>real\<close>. Paths follow \<^verbatim>\<open>posixpath\<close>: the source itself
  writes the separator as \<^verbatim>\<open>"test/"\<close> and \<^verbatim>\<open>class_name + "/"\<close>.
\<close>

datatype error =
    OSError string       \<comment> \<open>an I/O failure of the operating system, with the offending path\<close>
  | ValueError
  | IndexError

subsection \<open>Strings\<close>

definition lower_char :: "char \<Rightarrow> char" where
  "lower_char c =
     (case map_of (zip ''ABCDEFGHIJKLMNOPQRSTUVWXYZ'' ''abcdefghijklmnopqrstuvwxyz'') c of
        Some d \<Rightarrow> d
      | None \<Rightarrow> c)"

text \<open>\<^verbatim>\<open>str.lower()\<close> on ASCII text.\<close>

definition lower :: "string \<Rightarrow> string" where
  "lower s = map lower_char s"

text \<open>\<^verbatim>\<open>s.endswith(e)\<close> for one string \<open>e\<close>.\<close>

definition endswith1 :: "string \<Rightarrow> string \<Rightarrow> bool" where
  "endswith1 s e = (length e \<le> length s \<and> drop (length s - length e) s = e)"

text \<open>\<^verbatim>\<open>s.endswith(t)\<close> for a tuple \<open>t\<close> of strings: true when some member is a suffix.\<close>

definition endswith :: "string \<Rightarrow> string list \<Rightarrow> bool" where
  "endswith s t = list_ex (endswith1 s) t"

text \<open>\<^verbatim>\<open>s.startswith(e)\<close>.\<close>

definition startswith :: "string \<Rightarrow> string \<Rightarrow> bool" where
  "startswith s e = (take (length e) s = e)"

text \<open>
  Python indexing \<^verbatim>\<open>xs[i]\<close> of a list: a negative index counts from the end, an index out
  of range raises \<^verbatim>\<open>IndexError\<close>. Indexing a NumPy array by an integer behaves alike.
\<close>

definition py_index :: "'a list \<Rightarrow> int \<Rightarrow> error + 'a" where
  "py_index xs i =
     (if 0 \<le> i \<and> i < int (length xs) then Inr (xs ! nat i)
      else if - int (length xs) \<le> i \<and> i < 0 then Inr (xs ! nat (int (length xs) + i))
      else Inl IndexError)"

text \<open>Running a sequence of computations that may raise: the first exception wins.\<close>

fun sequence :: "('e + 'a) list \<Rightarrow> 'e + 'a list" where
  "sequence [] = Inr []"
| "sequence (Inl e # _) = Inl e"
| "sequence (Inr x # xs) = (case sequence xs of Inl e \<Rightarrow> Inl e | Inr ys \<Rightarrow> Inr (x # ys))"

subsection \<open>\<^verbatim>\<open>os.path\<close> on POSIX\<close>

text \<open>One round of the loop of \<^verbatim>\<open>posixpath.join\<close>, adding the component \<open>b\<close>.\<close>

definition join_step :: "string \<Rightarrow> string \<Rightarrow> string" where
  "join_step path b =
     (if startswith b ''/'' then b
      else if path = [] \<or> endswith1 path ''/'' then path @ b
      else path @ ''/'' @ b)"

definition os_path_join :: "string \<Rightarrow> string list \<Rightarrow> string" where
  "os_path_join a p = foldl join_step a p"

text \<open>\<^verbatim>\<open>path.split('/')\<close> and \<^verbatim>\<open>'/'.join(comps)\<close>.\<close>

fun split_sep :: "string \<Rightarrow> string list" where
  "split_sep [] = [[]]"
| "split_sep (c # cs) =
     (if c = CHR ''/'' then [] # split_sep cs
      else (case split_sep cs of w # ws \<Rightarrow> (c # w) # ws | [] \<Rightarrow> [[c]]))"

fun sep_join :: "string list \<Rightarrow> string" where
  "sep_join [] = []"
| "sep_join [x] = x"
| "sep_join (x # y # ys) = x @ ''/'' @ sep_join (y # ys)"

text \<open>The loop body of \<^verbatim>\<open>posixpath.normpath\<close> over the components.\<close>

definition normpath_step :: "nat \<Rightarrow> string list \<Rightarrow> string \<Rightarrow> string list" where
  "normpath_step initial_slashes new_comps part =
     (if part = [] \<or> part = ''.'' then new_comps
      else if part \<noteq> ''..'' \<or> (initial_slashes = 0 \<and> new_comps = [])
              \<or> (new_comps \<noteq> [] \<and> last new_comps = ''..'')
        then new_comps @ [part]
      else if new_comps \<noteq> [] then butlast new_comps
      else new_comps)"

definition normpath :: "string \<Rightarrow> string" where
  "normpath path =
     (if path = [] then ''.''
      else
        let initial_slashes =
              (if \<not> startswith path ''/'' then 0
               else if startswith path ''//'' \<and> \<not> startswith path ''///'' then 2
               else (1::nat));
            comps = foldl (normpath_step initial_slashes) [] (split_sep path);
            p = replicate initial_slashes (CHR ''/'') @ sep_join comps
        in if p = [] then ''.'' else p)"

subsection \<open>NumPy\<close>

text \<open>\<^verbatim>\<open>np.max(xs)\<close> raises \<^verbatim>\<open>ValueError\<close> on an empty sequence.\<close>

definition np_max :: "int list \<Rightarrow> error + int" where
  "np_max xs = (if xs = [] then Inl ValueError else Inr (Max (set xs)))"

text \<open>\<^verbatim>\<open>np.eye(n, dtype=float)\<close>: the identity matrix; a negative dimension raises.\<close>

definition eye :: "int \<Rightarrow> error + real list list" where
  "eye n =
     (if n < 0 then Inl ValueError
      else Inr (map (\<lambda>i. map (\<lambda>j. if i = j then 1 else 0) [0..<nat n]) [0..<nat n]))"

text \<open>\<^verbatim>\<open>a[idx]\<close> for a list \<open>idx\<close> of integers: the selected rows, in the order of \<open>idx\<close>.\<close>

definition np_take :: "'a list \<Rightarrow> int list \<Rightarrow> error + 'a list" where
  "np_take a idx = sequence (map (py_index a) idx)"

text \<open>\<^verbatim>\<open>np.argmax(xs)\<close>: the first position of the maximum.\<close>

definition argmax :: "real list \<Rightarrow> error + nat" where
  "argmax xs =
     (if xs = [] then Inl ValueError
      else Inr (length (takeWhile (\<lambda>x. x \<noteq> Max (set xs)) xs)))"

section \<open>\<^verbatim>\<open>one_hot_encoded\<close>\<close>

text \<open>
  NumPy stores a list of Python integers that all lie in \<open>[-2^63, 2^63)\<close> as an array of
  64-bit signed integers, and \<^verbatim>\<open>np.max\<close> of it is a 64-bit signed integer too. Adding
  \<open>1\<close> to it stays in 64 bits: the sum wraps around at \<open>2^63\<close>. \<open>int64 x\<close> is the value
  a 64-bit signed integer takes for the mathematical result \<open>x\<close>. The model of
  \<^verbatim>\<open>one_hot_encoded\<close> is that of class numbers within this range; how NumPy casts
  larger ones is not modelled. \<^verbatim>\<open>np.eye\<close> is the identity matrix of any size: memory
  limits are not modelled either.
\<close>

definition int64 :: "int \<Rightarrow> int" where
  "int64 x = (x + 2 ^ 63) mod 2 ^ 64 - 2 ^ 63"

text \<open>
  The default of the second parameter:
  \<^verbatim>\<open>if num_classes is None: num_classes = np.max(class_numbers) + 1\<close>.
\<close>

definition default_num_classes :: "int list \<Rightarrow> error + int" where
  "default_num_classes class_numbers =
     (case np_max class_numbers of
        Inl e \<Rightarrow> Inl e
      | Inr m \<Rightarrow> Inr (int64 (m + 1)))"

definition one_hot_encoded :: "int list \<Rightarrow> int option \<Rightarrow> error + real list list" where
  "one_hot_encoded class_numbers num_classes =
     (case (case num_classes of
              None \<Rightarrow> default_num_classes class_numbers
            | Some n \<Rightarrow> Inr n) of
        Inl e \<Rightarrow> Inl e
      | Inr n \<Rightarrow> (case eye n of Inl e \<Rightarrow> Inl e | Inr I \<Rightarrow> np_take I class_numbers))"

section \<open>The operating system as \<^verbatim>\<open>DataSet\<close> sees it\<close>

text \<open>
  The constructor only reads the file system, through \<^verbatim>\<open>os.getcwd\<close> (inside
  \<^verbatim>\<open>os.path.abspath\<close>), \<^verbatim>\<open>os.listdir\<close>, \<^verbatim>\<open>os.path.isdir\<close> and
  \<^verbatim>\<open>os.path.exists\<close>. A \<open>filesystem\<close> is what these calls answer during one
  construction. \<open>listdir\<close> gives the entries in the order of the operating system (no
  sorting), or raises; the theorems below hold for every such answer.
\<close>

record filesystem =
  getcwd :: string
  listdir :: "string \<Rightarrow> error + string list"
  isdir :: "string \<Rightarrow> bool"
  exists :: "string \<Rightarrow> bool"

text \<open>\<^verbatim>\<open>os.path.abspath\<close>: a relative path is joined to the working directory first.\<close>

definition abspath :: "filesystem \<Rightarrow> string \<Rightarrow> string" where
  "abspath fs path =
     normpath (if startswith path ''/'' then path else os_path_join (getcwd fs) [path])"

section \<open>The class \<^verbatim>\<open>DataSet\<close>\<close>

record DataSet =
  in_dir :: string
  exts :: "string list"
  class_names :: "string list"
  filenames :: "string list"
  filenames_test :: "string list"
  class_numbers :: "int list"
  class_numbers_test :: "int list"
  num_classes :: int

text \<open>
  The parameter \<^verbatim>\<open>exts\<close> is documented as a ``string or tuple of strings''. The
  constructor iterates over it: iterating over a tuple gives its members, iterating over
  a string gives its characters, each as a string of length one.
\<close>

datatype exts_arg = Str string | Tuple "string list"

fun iter_exts :: "exts_arg \<Rightarrow> string list" where
  "iter_exts (Str s) = map (\<lambda>c. [c]) s"
| "iter_exts (Tuple t) = t"

text \<open>The default value of the parameter: \<^verbatim>\<open>exts='.jpg'\<close>.\<close>

definition default_exts :: exts_arg where
  "default_exts = Str ''.jpg''"

subsection \<open>\<^verbatim>\<open>_get_filenames\<close>\<close>

definition get_filenames :: "filesystem \<Rightarrow> DataSet \<Rightarrow> string \<Rightarrow> error + string list" where
  "get_filenames fs self dir =
     (if exists fs dir then
        (case listdir fs dir of
           Inl e \<Rightarrow> Inl e
         | Inr entries \<Rightarrow> Inr (filter (\<lambda>filename. endswith (lower filename) (exts self)) entries))
      else Inr [])"

subsection \<open>\<^verbatim>\<open>__init__\<close>\<close>

text \<open>The body of the loop over \<^verbatim>\<open>os.listdir(in_dir)\<close>, for one entry \<open>name\<close>.\<close>

definition init_body :: "filesystem \<Rightarrow> DataSet \<Rightarrow> string \<Rightarrow> error + DataSet" where
  "init_body fs self name =
     (let current_dir = os_path_join (in_dir self) [name] in
      if isdir fs current_dir then
        (let self1 = self\<lparr>class_names := class_names self @ [name]\<rparr> in
         case get_filenames fs self1 current_dir of
           Inl e \<Rightarrow> Inl e
         | Inr fnames \<Rightarrow>
            (let self2 = self1\<lparr>filenames := filenames self1 @ fnames\<rparr>;
                 class_number = num_classes self2;
                 self3 = self2\<lparr>class_numbers :=
                            class_numbers self2 @ replicate (length fnames) class_number\<rparr>
             in case get_filenames fs self3 (os_path_join current_dir [''test'']) of
                  Inl e \<Rightarrow> Inl e
                | Inr fnames_test \<Rightarrow>
                   (let self4 = self3\<lparr>filenames_test := filenames_test self3 @ fnames_test\<rparr>;
                        self5 = self4\<lparr>class_numbers_test :=
                                   class_numbers_test self4
                                   @ replicate (length fnames_test) class_number\<rparr>
                    in Inr (self5\<lparr>num_classes := num_classes self5 + 1\<rparr>))))
      else Inr self)"

fun init_loop :: "filesystem \<Rightarrow> DataSet \<Rightarrow> string list \<Rightarrow> error + DataSet" where
  "init_loop fs self [] = Inr self"
| "init_loop fs self (name # names) =
     (case init_body fs self name of
        Inl e \<Rightarrow> Inl e
      | Inr self' \<Rightarrow> init_loop fs self' names)"

text \<open>
  \<^verbatim>\<open>DataSet(in_dir, exts)\<close>. An exception leaves no object behind, so the result is
  the exception alone.
\<close>

definition DataSet_init :: "filesystem \<Rightarrow> string \<Rightarrow> exts_arg \<Rightarrow> error + DataSet" where
  "DataSet_init fs in_dir_arg exts_arg =
     (let self = \<lparr>in_dir = abspath fs in_dir_arg,
                  exts = map lower (iter_exts exts_arg),
                  class_names = [],
                  filenames = [],
                  filenames_test = [],
                  class_numbers = [],
                  class_numbers_test = [],
                  num_classes = 0\<rparr>
      in case listdir fs (in_dir self) of
           Inl e \<Rightarrow> Inl e
         | Inr names \<Rightarrow> init_loop fs self names)"

subsection \<open>\<^verbatim>\<open>get_paths\<close>, \<^verbatim>\<open>get_training_set\<close>, \<^verbatim>\<open>get_test_set\<close>\<close>

text \<open>
  \<^verbatim>\<open>get_paths\<close> is a generator. The model lists what each \<^verbatim>\<open>next\<close> does, in order:
  it yields a path (\<open>Inr\<close>) or raises the \<^verbatim>\<open>IndexError\<close> of
  \<^verbatim>\<open>self.class_names[cls]\<close> (\<open>Inl\<close>); a consumer stops at the first \<open>Inl\<close>.
  \<^verbatim>\<open>zip\<close> ends with the shorter of its two arguments.
\<close>

definition get_paths :: "DataSet \<Rightarrow> bool \<Rightarrow> (error + string) list" where
  "get_paths self test =
     (let fnames = (if test then filenames_test self else filenames self);
          cnumbers = (if test then class_numbers_test self else class_numbers self);
          test_dir = (if test then ''test/'' else [])
      in map (\<lambda>(filename, cls).
                case py_index (class_names self) cls of
                  Inl e \<Rightarrow> Inl e
                | Inr class_name \<Rightarrow>
                    Inr (os_path_join (in_dir self) [class_name, test_dir, filename]))
             (zip fnames cnumbers))"

text \<open>
  The three components of the returned tuple are evaluated from left to right:
  \<^verbatim>\<open>list(self.get_paths())\<close>, the class numbers as an array, the one-hot labels.
\<close>

definition get_training_set :: "DataSet \<Rightarrow> error + string list \<times> int list \<times> real list list" where
  "get_training_set self =
     (case sequence (get_paths self False) of
        Inl e \<Rightarrow> Inl e
      | Inr paths \<Rightarrow>
         (case one_hot_encoded (class_numbers self) (Some (num_classes self)) of
            Inl e \<Rightarrow> Inl e
          | Inr labels \<Rightarrow> Inr (paths, class_numbers self, labels)))"

definition get_test_set :: "DataSet \<Rightarrow> error + string list \<times> int list \<times> real list list" where
  "get_test_set self =
     (case sequence (get_paths self True) of
        Inl e \<Rightarrow> Inl e
      | Inr paths \<Rightarrow>
         (case one_hot_encoded (class_numbers_test self) (Some (num_classes self)) of
            Inl e \<Rightarrow> Inl e
          | Inr labels \<Rightarrow> Inr (paths, class_numbers_test self, labels)))"

subsection \<open>\<^verbatim>\<open>copy_files\<close>\<close>

text \<open>
  The export changes the file system, so the model passes a world \<open>'w\<close> along. The
  operating system is a parameter: \<open>exists_in\<close> is \<^verbatim>\<open>os.path.exists\<close> in a world,
  \<open>makedirs\<close> and \<open>copy\<close> are \<^verbatim>\<open>os.makedirs\<close> and \<^verbatim>\<open>shutil.copy\<close>, which
  return the new world and the exception they raised, if any; \<open>print\<close> writes a line.
  A function of the export returns the world it reached and the exception that ended it.
\<close>

record 'w effects =
  exists_in :: "'w \<Rightarrow> string \<Rightarrow> bool"
  makedirs :: "'w \<Rightarrow> string \<Rightarrow> 'w \<times> error option"
  copy :: "'w \<Rightarrow> string \<Rightarrow> string \<Rightarrow> 'w \<times> error option"
  print :: "'w \<Rightarrow> string \<Rightarrow> 'w"

text \<open>The first loop of the helper \<^verbatim>\<open>_copy_files\<close>: create the missing class directories.\<close>

fun makedirs_loop :: "'w effects \<Rightarrow> string list \<Rightarrow> 'w \<Rightarrow> 'w \<times> error option" where
  "makedirs_loop os [] w = (w, None)"
| "makedirs_loop os (dir # dirs) w =
     (if \<not> exists_in os w dir then
        (case makedirs os w dir of
           (w', Some e) \<Rightarrow> (w', Some e)
         | (w', None) \<Rightarrow> makedirs_loop os dirs w')
      else makedirs_loop os dirs w)"

text \<open>
  The second loop: \<^verbatim>\<open>for src, cls in zip(src_paths, class_numbers)\<close>. Each round first
  takes the next path from the generator, which may raise, then indexes
  \<^verbatim>\<open>class_dirs[cls]\<close>, then copies. Nothing catches an exception.
\<close>

fun copy_loop ::
  "'w effects \<Rightarrow> string list \<Rightarrow> ((error + string) \<times> int) list \<Rightarrow> 'w \<Rightarrow> 'w \<times> error option" where
  "copy_loop os class_dirs [] w = (w, None)"
| "copy_loop os class_dirs ((Inl e, cls) # rest) w = (w, Some e)"
| "copy_loop os class_dirs ((Inr src, cls) # rest) w =
     (case py_index class_dirs cls of
        Inl e \<Rightarrow> (w, Some e)
      | Inr dst \<Rightarrow>
         (case copy os w src dst of
            (w', Some e) \<Rightarrow> (w', Some e)
          | (w', None) \<Rightarrow> copy_loop os class_dirs rest w'))"

definition copy_files_helper ::
  "'w effects \<Rightarrow> DataSet \<Rightarrow> (error + string) list \<Rightarrow> string \<Rightarrow> int list \<Rightarrow> 'w
     \<Rightarrow> 'w \<times> error option" where
  "copy_files_helper os self src_paths dst_dir cnumbers w =
     (let class_dirs = map (\<lambda>class_name. os_path_join dst_dir [class_name @ ''/''])
                           (class_names self)
      in case makedirs_loop os class_dirs w of
           (w', Some e) \<Rightarrow> (w', Some e)
         | (w', None) \<Rightarrow> copy_loop os class_dirs (zip src_paths cnumbers) w')"

definition copy_files ::
  "'w effects \<Rightarrow> DataSet \<Rightarrow> string \<Rightarrow> string \<Rightarrow> 'w \<Rightarrow> 'w \<times> error option" where
  "copy_files os self train_dir test_dir w =
     (case copy_files_helper os self (get_paths self False) train_dir (class_numbers self) w of
        (w1, Some e) \<Rightarrow> (w1, Some e)
      | (w1, None) \<Rightarrow>
         (let w2 = print os w1 (''- Copied training-set to: '' @ train_dir) in
          case copy_files_helper os self (get_paths self True) test_dir
                 (class_numbers_test self) w2 of
            (w3, Some e) \<Rightarrow> (w3, Some e)
          | (w3, None) \<Rightarrow> (print os w3 (''- Copied test-set to: '' @ test_dir), None)))"

section \<open>\<^verbatim>\<open>load_cached\<close>\<close>

text \<open>
  A cache file holds a value, read back as it was written
  (\<^verbatim>\<open>deserialize(serialize(x)) == x\<close>), or content that cannot be deserialized.
\<close>

datatype 'a cache_file = Stored 'a | Corrupt

text \<open>What the cache reports without raising: a write that failed, with its path.\<close>

datatype report = CacheWriteFailed string

text \<open>
  Modelled from the spec: the function \<^verbatim>\<open>cache\<close> of the module \<^verbatim>\<open>cache\<close>, which
  \<^verbatim>\<open>dataset.py\<close> imports and which is not among the sources. The specification
  (Persistent Cache, \<^verbatim>\<open>load_or_compute(cache_key, build_fn, build_args)\<close>, and the
  error handling design) says:
  \<^item> if a persisted value exists at the cache key, deserialize and return it without
    invoking the build function;
  \<^item> if no persisted value exists, invoke the build function, persist the exact result at
    the cache key, then return it;
  \<^item> \<^verbatim>\<open>CacheReadCorrupt\<close>: persisted content that cannot be deserialized is treated as
    a cache miss, rebuilt and overwritten, never fatal;
  \<^item> \<^verbatim>\<open>CacheWriteFailed\<close>: when persisting the freshly built value fails, the value is
    still returned; the failure is reported and is not fatal;
  \<^item> the write is atomic, so a failed write leaves the persisted files as they were.
  Whether a write to a path fails (a full disk, a missing permission) is a fact of the
  environment, the argument \<open>write_fails\<close>. An exception of the build function
  propagates and nothing is persisted. The function returns its result, the persisted
  files and the failures it reported.
\<close>

definition cache ::
  "string \<Rightarrow> (unit \<Rightarrow> error + 'a) \<Rightarrow> (string \<rightharpoonup> 'a cache_file) \<Rightarrow> (string \<Rightarrow> bool)
     \<Rightarrow> (error + 'a) \<times> (string \<rightharpoonup> 'a cache_file) \<times> report list" where
  "cache cache_path fn persisted write_fails =
     (let build =
        (case fn () of
           Inl e \<Rightarrow> (Inl e, persisted, [])
         | Inr obj \<Rightarrow>
            (if write_fails cache_path
               then (Inr obj, persisted, [CacheWriteFailed cache_path])
             else (Inr obj, persisted(cache_path \<mapsto> Stored obj), [])))
      in case persisted cache_path of
           Some (Stored obj) \<Rightarrow> (Inr obj, persisted, [])
         | Some Corrupt \<Rightarrow> build
         | None \<Rightarrow> build)"

text \<open>
  The state of \<^verbatim>\<open>load_cached\<close>: the persisted cache files, the paths at which a write
  fails, the failures reported and the lines printed. The call
  \<^verbatim>\<open>cache(cache_path=cache_path, fn=DataSet, in_dir=in_dir)\<close> builds with
  \<^verbatim>\<open>DataSet(in_dir=in_dir)\<close>, that is with the default extensions.
\<close>

record world =
  cache_files :: "string \<rightharpoonup> DataSet cache_file"
  write_fails :: "string \<Rightarrow> bool"
  reports :: "report list"
  stdout :: "string list"

definition load_cached ::
  "filesystem \<Rightarrow> string \<Rightarrow> string \<Rightarrow> world \<Rightarrow> (error + DataSet) \<times> world" where
  "load_cached fs cache_path dir w =
     (let w1 = w\<lparr>stdout := stdout w @ [''Creating dataset from the files in: '' @ dir]\<rparr>
      in case cache cache_path (\<lambda>_. DataSet_init fs dir default_exts) (cache_files w1)
                (write_fails w1) of
           (dataset, persisted, reported) \<Rightarrow>
             (dataset, w1\<lparr>cache_files := persisted, reports := reports w1 @ reported\<rparr>))"

section \<open>Notions used in the statements\<close>

text \<open>Row \<open>k\<close> of the identity matrix of size \<open>n\<close>.\<close>

definition unit_row :: "nat \<Rightarrow> nat \<Rightarrow> real list" where
  "unit_row n k = map (\<lambda>j. if k = j then 1 else 0) [0..<n]"

text \<open>
  A directory name followed by the separator, unless the name is empty or ends in the
  separator already (as \<open>/\<close> does): what \<^verbatim>\<open>os.path.join\<close> puts before the next
  component.
\<close>

definition with_sep :: "string \<Rightarrow> string" where
  "with_sep d = (if d = [] \<or> last d = CHR ''/'' then d else d @ ''/'')"

text \<open>
  What POSIX guarantees of the names \<^verbatim>\<open>os.listdir\<close> returns: none is empty and none
  contains the separator.
\<close>

definition names_ok :: "filesystem \<Rightarrow> bool" where
  "names_ok fs \<longleftrightarrow>
     (\<forall>p entries. listdir fs p = Inr entries \<longrightarrow>
        (\<forall>n\<in>set entries. n \<noteq> [] \<and> CHR ''/'' \<notin> set n))"

text \<open>
  The entries of the directory \<open>dir\<close> that the scan keeps for the extensions \<open>es\<close>, in
  the order of the listing; empty where the scan returns nothing or raises.
\<close>

definition scan :: "filesystem \<Rightarrow> string list \<Rightarrow> string \<Rightarrow> string list" where
  "scan fs es dir =
     (if exists fs dir then
        (case listdir fs dir of
           Inl e \<Rightarrow> []
         | Inr entries \<Rightarrow> filter (\<lambda>filename. endswith (lower filename) es) entries)
      else [])"

text \<open>
  The class numbers of consecutive classes, the first numbered \<open>k\<close>, where \<open>counts\<close>
  gives the number of files of each class: \<open>k\<close> repeated for the files of the first
  class, then \<open>k + 1\<close> for those of the second, and so on.
\<close>

fun numbered :: "int \<Rightarrow> nat list \<Rightarrow> int list" where
  "numbered k [] = []"
| "numbered k (c # counts) = replicate c k @ numbered (k + 1) counts"

text \<open>A directory that can be listed whenever it exists.\<close>

definition listable :: "filesystem \<Rightarrow> string \<Rightarrow> bool" where
  "listable fs dir \<longleftrightarrow> (exists fs dir \<longrightarrow> (\<exists>entries. listdir fs dir = Inr entries))"

text \<open>The class directories among the entries \<open>names\<close> of \<open>base\<close>, in listing order.\<close>

definition class_dirs_in :: "filesystem \<Rightarrow> string \<Rightarrow> string list \<Rightarrow> string list" where
  "class_dirs_in fs base names = filter (\<lambda>name. isdir fs (os_path_join base [name])) names"

text \<open>
  The files the constructor records for the class directory \<open>name\<close> under \<open>base\<close>:
  those of the directory itself (training) and those of its sub-directory \<^verbatim>\<open>test\<close>.
\<close>

definition train_files :: "filesystem \<Rightarrow> string list \<Rightarrow> string \<Rightarrow> string \<Rightarrow> string list" where
  "train_files fs es base name = scan fs es (os_path_join base [name])"

definition test_files :: "filesystem \<Rightarrow> string list \<Rightarrow> string \<Rightarrow> string \<Rightarrow> string list" where
  "test_files fs es base name =
     scan fs es (os_path_join (os_path_join base [name]) [''test''])"

text \<open>Path components as \<^verbatim>\<open>normpath\<close> keeps them: not empty and without separator.\<close>

definition proper :: "string list \<Rightarrow> bool" where
  "proper comps \<longleftrightarrow> (\<forall>c\<in>set comps. c \<noteq> [] \<and> CHR ''/'' \<notin> set c)"


text \<open>
  The destination directories of the export below \<open>dst_dir\<close>, one per class: the list
  \<^verbatim>\<open>class_dirs\<close> of the helper \<^verbatim>\<open>_copy_files\<close>.
\<close>

definition class_dirs_for :: "DataSet \<Rightarrow> string \<Rightarrow> string list" where
  "class_dirs_for self dst_dir =
     map (\<lambda>class_name. os_path_join dst_dir [class_name @ ''/'']) (class_names self)"

section \<open>Example directory trees\<close>

text \<open>
  The scenario of the specification: the root holds the classes \<^verbatim>\<open>cirrus\<close> (two
  training images, one test image) and \<^verbatim>\<open>cumulus\<close> (one training image and no
  \<^verbatim>\<open>test\<close> directory), next to the cache file. The working directory is
  \<^verbatim>\<open>/home/u\<close>; the data set is made from the relative path
  \<^verbatim>\<open>data/clouds-images/\<close>, as \<^verbatim>\<open>cloudy.py\<close> does.
\<close>

definition clouds_dirs :: "string list" where
  "clouds_dirs =
     [''/home/u/data/clouds-images'',
      ''/home/u/data/clouds-images/cirrus'',
      ''/home/u/data/clouds-images/cirrus/test'',
      ''/home/u/data/clouds-images/cumulus'']"

definition clouds_files :: "string list" where
  "clouds_files =
     [''/home/u/data/clouds-images/clouds-images.pkl'',
      ''/home/u/data/clouds-images/cirrus/c1.jpg'',
      ''/home/u/data/clouds-images/cirrus/C2.JPG'',
      ''/home/u/data/clouds-images/cirrus/notes.txt'',
      ''/home/u/data/clouds-images/cirrus/test/c3.jpg'',
      ''/home/u/data/clouds-images/cumulus/k1.jpg'']"

definition fs_clouds :: filesystem where
  "fs_clouds =
     \<lparr>getcwd = ''/home/u'',
      listdir = (\<lambda>p.
        if p = ''/home/u/data/clouds-images''
          then Inr [''cirrus'', ''clouds-images.pkl'', ''cumulus'']
        else if p = ''/home/u/data/clouds-images/cirrus''
          then Inr [''c1.jpg'', ''test'', ''C2.JPG'', ''notes.txt'']
        else if p = ''/home/u/data/clouds-images/cirrus/test'' then Inr [''c3.jpg'']
        else if p = ''/home/u/data/clouds-images/cumulus'' then Inr [''k1.jpg'']
        else Inl (OSError p)),
      isdir = (\<lambda>p. p \<in> set clouds_dirs),
      exists = (\<lambda>p. p \<in> set (clouds_dirs @ clouds_files))\<rparr>"

definition ds_clouds :: DataSet where
  "ds_clouds =
     \<lparr>in_dir = ''/home/u/data/clouds-images'',
      exts = [''.'', ''j'', ''p'', ''g''],
      class_names = [''cirrus'', ''cumulus''],
      filenames = [''c1.jpg'', ''C2.JPG'', ''k1.jpg''],
      filenames_test = [''c3.jpg''],
      class_numbers = [0, 0, 1],
      class_numbers_test = [0],
      num_classes = 2\<rparr>"

text \<open>
  Two classes, the second one empty: \<^verbatim>\<open>/data/cirrus\<close> holds one image,
  \<^verbatim>\<open>/data/cumulus\<close> holds nothing.
\<close>

definition fs_empty_last :: filesystem where
  "fs_empty_last =
     \<lparr>getcwd = ''/'',
      listdir = (\<lambda>p.
        if p = ''/data'' then Inr [''cirrus'', ''cumulus'']
        else if p = ''/data/cirrus'' then Inr [''a.jpg'']
        else if p = ''/data/cumulus'' then Inr []
        else Inl (OSError p)),
      isdir = (\<lambda>p. p \<in> set [''/data'', ''/data/cirrus'', ''/data/cumulus'']),
      exists = (\<lambda>p. p \<in> set [''/data'', ''/data/cirrus'', ''/data/cumulus'',
                                  ''/data/cirrus/a.jpg''])\<rparr>"

definition ds_empty_last :: DataSet where
  "ds_empty_last =
     \<lparr>in_dir = ''/data'',
      exts = [''.'', ''j'', ''p'', ''g''],
      class_names = [''cirrus'', ''cumulus''],
      filenames = [''a.jpg''],
      filenames_test = [],
      class_numbers = [0],
      class_numbers_test = [],
      num_classes = 2\<rparr>"

text \<open>
  One class whose directory holds an image and files of other kinds, all of them regular
  files.
\<close>

definition fs_mixed :: filesystem where
  "fs_mixed =
     \<lparr>getcwd = ''/'',
      listdir = (\<lambda>p.
        if p = ''/data'' then Inr [''cirrus'']
        else if p = ''/data/cirrus''
          then Inr [''a.jpg'', ''notes.png'', ''catalog'', ''b.gif'', ''backup.zip'']
        else Inl (OSError p)),
      isdir = (\<lambda>p. p \<in> set [''/data'', ''/data/cirrus'']),
      exists = (\<lambda>p. p \<in> set [''/data'', ''/data/cirrus'', ''/data/cirrus/a.jpg'',
                                  ''/data/cirrus/notes.png'', ''/data/cirrus/catalog'',
                                  ''/data/cirrus/b.gif'', ''/data/cirrus/backup.zip''])\<rparr>"

definition ds_mixed :: DataSet where
  "ds_mixed =
     \<lparr>in_dir = ''/data'',
      exts = [''.'', ''j'', ''p'', ''g''],
      class_names = [''cirrus''],
      filenames = [''a.jpg'', ''notes.png'', ''catalog'', ''backup.zip''],
      filenames_test = [],
      class_numbers = [0, 0, 0, 0],
      class_numbers_test = [],
      num_classes = 1\<rparr>"

text \<open>
  One class whose directory holds an image and a sub-directory named \<^verbatim>\<open>x.jpg\<close>.
\<close>

definition fs_subdir :: filesystem where
  "fs_subdir =
     \<lparr>getcwd = ''/'',
      listdir = (\<lambda>p.
        if p = ''/data'' then Inr [''cirrus'']
        else if p = ''/data/cirrus'' then Inr [''a.jpg'', ''x.jpg'']
        else if p = ''/data/cirrus/x.jpg'' then Inr [''inner.jpg'']
        else Inl (OSError p)),
      isdir = (\<lambda>p. p \<in> set [''/data'', ''/data/cirrus'', ''/data/cirrus/x.jpg'']),
      exists = (\<lambda>p. p \<in> set [''/data'', ''/data/cirrus'', ''/data/cirrus/x.jpg'',
                                  ''/data/cirrus/a.jpg'', ''/data/cirrus/x.jpg/inner.jpg''])\<rparr>"

definition ds_subdir :: DataSet where
  "ds_subdir =
     \<lparr>in_dir = ''/data'',
      exts = [''.jpg''],
      class_names = [''cirrus''],
      filenames = [''a.jpg'', ''x.jpg''],
      filenames_test = [],
      class_numbers = [0, 0],
      class_numbers_test = [],
      num_classes = 1\<rparr>"

text \<open>
  The tree of the scenario once more, at a later time: the same entries, but the
  operating system lists the root in another order.
\<close>

definition fs_clouds_later :: filesystem where
  "fs_clouds_later =
     fs_clouds\<lparr>listdir := (\<lambda>p.
        if p = ''/home/u/data/clouds-images''
          then Inr [''cumulus'', ''clouds-images.pkl'', ''cirrus'']
        else listdir fs_clouds p)\<rparr>"

text \<open>The data set a scan of the tree gives at that later time.\<close>

definition ds_clouds_later :: DataSet where
  "ds_clouds_later =
     \<lparr>in_dir = ''/home/u/data/clouds-images'',
      exts = [''.'', ''j'', ''p'', ''g''],
      class_names = [''cumulus'', ''cirrus''],
      filenames = [''k1.jpg'', ''c1.jpg'', ''C2.JPG''],
      filenames_test = [''c3.jpg''],
      class_numbers = [0, 1, 1],
      class_numbers_test = [1],
      num_classes = 2\<rparr>"

text \<open>
  Before the first call nothing is cached and nothing has been printed; the cache file
  can be written.
\<close>

definition world_fresh :: world where
  "world_fresh =
     \<lparr>cache_files = Map.empty, write_fails = (\<lambda>p. False), reports = [], stdout = []\<rparr>"

definition world_cached :: world where
  "world_cached =
     \<lparr>cache_files = [''data/clouds-images/clouds-images.pkl'' \<mapsto> Stored ds_clouds],
      write_fails = (\<lambda>p. False),
      reports = [],
      stdout = [''Creating dataset from the files in: data/clouds-images/'']\<rparr>"

text \<open>The same start where no cache file can be written, and the world after one call.\<close>

definition world_unwritable :: world where
  "world_unwritable =
     \<lparr>cache_files = Map.empty, write_fails = (\<lambda>p. True), reports = [], stdout = []\<rparr>"

definition world_unwritable_after :: world where
  "world_unwritable_after =
     \<lparr>cache_files = Map.empty,
      write_fails = (\<lambda>p. True),
      reports = [CacheWriteFailed ''data/clouds-images/clouds-images.pkl''],
      stdout = [''Creating dataset from the files in: data/clouds-images/'']\<rparr>"

text \<open>
  An operating system for the export whose world is the list of the calls made so far.
  A directory exists once it has been created; every call is recorded, also a copy that
  fails; the copies of the sources in \<open>bad\<close> fail.
\<close>

datatype event = Makedirs string | Copy string string | Print string

definition os_log :: "string list \<Rightarrow> event list effects" where
  "os_log bad =
     \<lparr>exists_in = (\<lambda>w p. Makedirs p \<in> set w),
      makedirs = (\<lambda>w p. (w @ [Makedirs p], None)),
      copy = (\<lambda>w src dst. (w @ [Copy src dst],
                             if src \<in> set bad then Some (OSError src) else None)),
      print = (\<lambda>w s. w @ [Print s])\<rparr>"

section \<open>Facts about paths\<close>

lemma startswith_sep: "startswith b ''/'' \<longleftrightarrow> b \<noteq> [] \<and> hd b = CHR ''/''"
  by (cases b) (simp_all add: startswith_def)

lemma endswith1_sep: "endswith1 s ''/'' \<longleftrightarrow> s \<noteq> [] \<and> last s = CHR ''/''"
  by (cases s rule: rev_cases) (simp_all add: endswith1_def)

lemma no_sep_hd: "n \<noteq> [] \<Longrightarrow> CHR ''/'' \<notin> set n \<Longrightarrow> hd n \<noteq> CHR ''/''"
  by (cases n) auto

lemma no_sep_last: "n \<noteq> [] \<Longrightarrow> CHR ''/'' \<notin> set n \<Longrightarrow> last n \<noteq> CHR ''/''"
  by (cases n rule: rev_cases) auto

lemma join_step_name:
  assumes "n \<noteq> []" "CHR ''/'' \<notin> set n"
  shows "join_step d n = with_sep d @ n"
  using no_sep_hd [OF assms]
  by (simp add: join_step_def startswith_sep endswith1_sep with_sep_def assms)

lemma join_name:
  assumes "n \<noteq> []" "CHR ''/'' \<notin> set n"
  shows "os_path_join d [n] = with_sep d @ n"
  by (simp add: os_path_join_def join_step_name [OF assms])

lemma with_sep_name:
  assumes "n \<noteq> []" "CHR ''/'' \<notin> set n"
  shows "with_sep (d @ n) = d @ n @ ''/''"
  using no_sep_last [OF assms] assms by (simp add: with_sep_def)

lemma join_train:
  assumes "c \<noteq> []" "CHR ''/'' \<notin> set c" "f \<noteq> []" "CHR ''/'' \<notin> set f"
  shows "os_path_join d [c, [], f] = with_sep d @ c @ ''/'' @ f"
proof -
  have 1: "join_step d c = with_sep d @ c"
    using assms by (simp add: join_step_name)
  have 2: "join_step (with_sep d @ c) [] = with_sep d @ c @ ''/''"
    using no_sep_last [OF assms(1,2)] assms(1)
    by (simp add: join_step_def startswith_def endswith1_sep)
  have 3: "join_step (with_sep d @ c @ ''/'') f = with_sep d @ c @ ''/'' @ f"
    using no_sep_hd [OF assms(3,4)]
    by (simp add: join_step_def startswith_sep endswith1_sep)
  show ?thesis
    by (simp add: os_path_join_def 1 2 3)
qed

lemma join_test:
  assumes "c \<noteq> []" "CHR ''/'' \<notin> set c" "f \<noteq> []" "CHR ''/'' \<notin> set f"
  shows "os_path_join d [c, ''test/'', f] = with_sep d @ c @ ''/test/'' @ f"
proof -
  have 1: "join_step d c = with_sep d @ c"
    using assms by (simp add: join_step_name)
  have 2: "join_step (with_sep d @ c) ''test/'' = with_sep d @ c @ ''/test/''"
    using no_sep_last [OF assms(1,2)] assms(1)
    by (simp add: join_step_def startswith_def endswith1_sep)
  have 3: "join_step (with_sep d @ c @ ''/test/'') f = with_sep d @ c @ ''/test/'' @ f"
    using no_sep_hd [OF assms(3,4)]
    by (simp add: join_step_def startswith_sep endswith1_sep)
  show ?thesis
    by (simp add: os_path_join_def 1 2 3)
qed

lemma join_test_dir:
  assumes "c \<noteq> []" "CHR ''/'' \<notin> set c"
  shows "os_path_join (os_path_join d [c]) [''test''] = with_sep d @ c @ ''/test''"
proof -
  have "join_step (with_sep d @ c) ''test'' = with_sep d @ c @ ''/test''"
    using no_sep_last [OF assms] assms
    by (simp add: join_step_def startswith_def endswith1_sep)
  then show ?thesis
    by (simp add: join_step_name [OF assms] os_path_join_def)
qed

text \<open>A normalised path ends in the separator only when it is \<^verbatim>\<open>/\<close> or \<^verbatim>\<open>//\<close>.\<close>

lemma split_sep_nonempty: "split_sep s \<noteq> []"
  by (induction s) (auto split: list.splits)

lemma split_sep_no_sep: "c \<in> set (split_sep s) \<Longrightarrow> CHR ''/'' \<notin> set c"
proof (induction s arbitrary: c)
  case Nil
  then show ?case by simp
next
  case (Cons a s)
  show ?case
  proof (cases "a = CHR ''/''")
    case True
    with Cons show ?thesis by auto
  next
    case False
    obtain w ws where s: "split_sep s = w # ws"
      using split_sep_nonempty [of s] by (cases "split_sep s") auto
    with Cons False show ?thesis
      by auto
  qed
qed

lemma normpath_step_proper:
  assumes "proper new_comps" and "CHR ''/'' \<notin> set part"
  shows "proper (normpath_step k new_comps part)"
  using assms by (auto simp: normpath_step_def proper_def dest: in_set_butlastD)

lemma normpath_loop_proper:
  assumes "proper new_comps" and "\<forall>part\<in>set parts. CHR ''/'' \<notin> set part"
  shows "proper (foldl (normpath_step k) new_comps parts)"
  using assms
proof (induction parts arbitrary: new_comps)
  case Nil
  then show ?case by simp
next
  case (Cons part parts)
  then show ?case
    by (simp add: normpath_step_proper)
qed

lemma sep_join_last:
  assumes "comps \<noteq> []" and "proper comps"
  shows "sep_join comps \<noteq> [] \<and> last (sep_join comps) \<noteq> CHR ''/''"
  using assms
proof (induction comps rule: sep_join.induct)
  case 1
  then show ?case by simp
next
  case (2 x)
  then show ?case
    by (cases x rule: rev_cases) (auto simp: proper_def)
next
  case (3 x y ys)
  then show ?case
    by (simp add: proper_def)
qed

lemma normpath_last:
  "normpath p \<noteq> [] \<and> (last (normpath p) = CHR ''/'' \<longrightarrow> normpath p \<in> {''/'', ''//''})"
proof (cases "p = []")
  case True
  then show ?thesis by (simp add: normpath_def)
next
  case False
  define k where "k = (if \<not> startswith p ''/'' then 0
               else if startswith p ''//'' \<and> \<not> startswith p ''///'' then 2
               else (1::nat))"
  define comps where "comps = foldl (normpath_step k) [] (split_sep p)"
  have n: "normpath p = (if replicate k (CHR ''/'') @ sep_join comps = [] then ''.''
                         else replicate k (CHR ''/'') @ sep_join comps)"
    using False by (simp add: normpath_def Let_def k_def comps_def)
  have pr: "proper comps"
    unfolding comps_def
    by (rule normpath_loop_proper) (auto simp: proper_def dest: split_sep_no_sep)
  have k: "k = 0 \<or> k = 1 \<or> k = 2"
    by (simp add: k_def)
  show ?thesis
  proof (cases "comps = []")
    case True
    with k show ?thesis
      unfolding n by (auto simp: numeral_2_eq_2)
  next
    case False
    from sep_join_last [OF False pr] show ?thesis
      unfolding n by simp
  qed
qed

lemma with_sep_abspath:
  "abspath fs d \<notin> {''/'', ''//''} \<Longrightarrow> with_sep (abspath fs d) = abspath fs d @ ''/''"
  using normpath_last [of "if startswith d ''/'' then d else os_path_join (getcwd fs) [d]"]
  by (auto simp: with_sep_def abspath_def)


section \<open>Facts about class numbering\<close>

lemma length_numbered: "length (numbered k counts) = sum_list counts"
  by (induction counts arbitrary: k) simp_all

lemma length_numbered_concat:
  "length (numbered k (map length xss)) = length (concat xss)"
  by (simp add: length_numbered length_concat)

lemma set_numbered:
  "c \<in> set (numbered k counts) \<longleftrightarrow>
     k \<le> c \<and> c < k + int (length counts) \<and> 0 < counts ! nat (c - k)"
proof (induction counts arbitrary: k)
  case Nil
  show ?case by simp
next
  case (Cons a counts)
  show ?case
  proof (cases "c = k")
    case True
    then show ?thesis
      using Cons.IH [of "k + 1"] by auto
  next
    case False
    have "k + 1 \<le> c \<Longrightarrow> nat (c - k) = Suc (nat (c - (k + 1)))"
      by simp
    then show ?thesis
      using False Cons.IH [of "k + 1"] by auto
  qed
qed

lemma numbered_bounds:
  "c \<in> set (numbered k counts) \<Longrightarrow> k \<le> c \<and> c < k + int (length counts)"
  by (simp add: set_numbered)

lemma nth_numbered_concat:
  assumes "i < length (concat xss)"
  shows "k \<le> numbered k (map length xss) ! i \<and>
         numbered k (map length xss) ! i < k + int (length xss) \<and>
         concat xss ! i \<in> set (xss ! nat (numbered k (map length xss) ! i - k))"
  using assms
proof (induction xss arbitrary: k i)
  case Nil
  then show ?case by simp
next
  case (Cons xs xss)
  show ?case
  proof (cases "i < length xs")
    case True
    then show ?thesis
      by (simp add: nth_append)
  next
    case False
    let ?j = "i - length xs"
    have j: "?j < length (concat xss)"
      using Cons.prems False by simp
    note IH = Cons.IH [OF j, of "k + 1"]
    let ?c = "numbered (k + 1) (map length xss) ! ?j"
    have "k + 1 \<le> ?c"
      using IH by blast
    then have n: "nat (?c - k) = Suc (nat (?c - (k + 1)))"
      by linarith
    show ?thesis
      using False IH by (simp add: nth_append n)
  qed
qed

lemma numbered_concat_member:
  assumes "c < length xss" and "x \<in> set (xss ! c)"
  shows "\<exists>i<length (concat xss).
           concat xss ! i = x \<and> numbered k (map length xss) ! i = k + int c"
  using assms
proof (induction xss arbitrary: k c)
  case Nil
  then show ?case by simp
next
  case (Cons xs xss)
  show ?case
  proof (cases c)
    case 0
    with Cons.prems obtain i where "i < length xs" "xs ! i = x"
      by (auto simp: in_set_conv_nth)
    then show ?thesis
      using 0 by (intro exI [of _ i]) (simp add: nth_append)
  next
    case (Suc c')
    with Cons.prems have "c' < length xss" "x \<in> set (xss ! c')"
      by simp_all
    from Cons.IH [OF this, of "k + 1"] obtain j where
      j: "j < length (concat xss)" "concat xss ! j = x"
         "numbered (k + 1) (map length xss) ! j = k + 1 + int c'"
      by blast
    show ?thesis
      using j Suc by (intro exI [of _ "length xs + j"]) (simp add: nth_append)
  qed
qed

section \<open>What the constructor builds\<close>

lemma get_filenames_scan:
  "get_filenames fs self dir = Inr fnames \<Longrightarrow> fnames = scan fs (exts self) dir"
  by (auto simp: get_filenames_def scan_def split: if_splits sum.splits)

lemma get_filenames_update:
  "get_filenames fs (self\<lparr>class_names := a\<rparr>) dir = get_filenames fs self dir"
  "get_filenames fs (self\<lparr>filenames := b\<rparr>) dir = get_filenames fs self dir"
  "get_filenames fs (self\<lparr>class_numbers := c\<rparr>) dir = get_filenames fs self dir"
  by (simp_all add: get_filenames_def split: sum.split)

lemma init_body_unfold:
  assumes "isdir fs (os_path_join (in_dir self) [name])"
  shows "init_body fs self name =
     (case get_filenames fs self (os_path_join (in_dir self) [name]) of
        Inl e \<Rightarrow> Inl e
      | Inr fnames \<Rightarrow>
         (case get_filenames fs self (os_path_join (os_path_join (in_dir self) [name]) [''test'']) of
            Inl e \<Rightarrow> Inl e
          | Inr fnames_test \<Rightarrow>
             Inr (self
               \<lparr>class_names := class_names self @ [name],
                filenames := filenames self @ fnames,
                class_numbers := class_numbers self @ replicate (length fnames) (num_classes self),
                filenames_test := filenames_test self @ fnames_test,
                class_numbers_test := class_numbers_test self
                   @ replicate (length fnames_test) (num_classes self),
                num_classes := num_classes self + 1\<rparr>)))"
  using assms
  by (simp add: init_body_def Let_def get_filenames_update split: sum.split)

lemma get_filenames_listable:
  "(\<exists>fnames. get_filenames fs self dir = Inr fnames) \<longleftrightarrow> listable fs dir"
  by (auto simp: get_filenames_def listable_def split: sum.splits)

lemma init_body_nodir:
  "\<not> isdir fs (os_path_join (in_dir self) [name]) \<Longrightarrow> init_body fs self name = Inr self"
  by (simp add: init_body_def)

lemma init_body_dir:
  assumes "isdir fs (os_path_join (in_dir self) [name])"
    and "init_body fs self name = Inr self'"
  shows "self' = self
      \<lparr>class_names := class_names self @ [name],
       filenames := filenames self @ train_files fs (exts self) (in_dir self) name,
       class_numbers := class_numbers self
          @ replicate (length (train_files fs (exts self) (in_dir self) name)) (num_classes self),
       filenames_test := filenames_test self @ test_files fs (exts self) (in_dir self) name,
       class_numbers_test := class_numbers_test self
          @ replicate (length (test_files fs (exts self) (in_dir self) name)) (num_classes self),
       num_classes := num_classes self + 1\<rparr>"
proof -
  let ?cur = "os_path_join (in_dir self) [name]"
  let ?test = "os_path_join ?cur [''test'']"
  from assms obtain fnames fnames_test where
    a: "get_filenames fs self ?cur = Inr fnames" and
    b: "get_filenames fs self ?test = Inr fnames_test" and
    c: "self' = self
      \<lparr>class_names := class_names self @ [name],
       filenames := filenames self @ fnames,
       class_numbers := class_numbers self @ replicate (length fnames) (num_classes self),
       filenames_test := filenames_test self @ fnames_test,
       class_numbers_test := class_numbers_test self
          @ replicate (length fnames_test) (num_classes self),
       num_classes := num_classes self + 1\<rparr>"
    unfolding init_body_unfold [OF assms(1)] by (auto split: sum.splits)
  show ?thesis
    using get_filenames_scan [OF a] get_filenames_scan [OF b]
    by (simp add: c train_files_def test_files_def)
qed

lemma init_body_succeeds:
  assumes "isdir fs (os_path_join (in_dir self) [name])"
    and "listable fs (os_path_join (in_dir self) [name])"
    and "listable fs (os_path_join (os_path_join (in_dir self) [name]) [''test''])"
  shows "\<exists>self'. init_body fs self name = Inr self'"
proof -
  let ?cur = "os_path_join (in_dir self) [name]"
  let ?test = "os_path_join ?cur [''test'']"
  obtain fnames where a: "get_filenames fs self ?cur = Inr fnames"
    using assms(2) get_filenames_listable by blast
  obtain fnames_test where b: "get_filenames fs self ?test = Inr fnames_test"
    using assms(3) get_filenames_listable by blast
  show ?thesis
    by (simp add: init_body_unfold [OF assms(1)] a b)
qed

lemma init_body_fails:
  assumes "isdir fs (os_path_join (in_dir self) [name])"
    and "\<not> (listable fs (os_path_join (in_dir self) [name])
           \<and> listable fs (os_path_join (os_path_join (in_dir self) [name]) [''test'']))"
  shows "\<exists>e. init_body fs self name = Inl e"
proof -
  let ?cur = "os_path_join (in_dir self) [name]"
  let ?test = "os_path_join ?cur [''test'']"
  have "(\<exists>e. get_filenames fs self ?cur = Inl e) \<or> (\<exists>e. get_filenames fs self ?test = Inl e)"
    using assms(2) get_filenames_listable [of fs self]
    by (metis sum.exhaust_sel)
  then show ?thesis
    by (auto simp: init_body_unfold [OF assms(1)] split: sum.splits)
qed

lemma init_loop_result:
  assumes "init_loop fs self names = Inr ds"
  shows "in_dir ds = in_dir self \<and> exts ds = exts self \<and>
    class_names ds = class_names self @ class_dirs_in fs (in_dir self) names \<and>
    num_classes ds = num_classes self + int (length (class_dirs_in fs (in_dir self) names)) \<and>
    filenames ds = filenames self
       @ concat (map (train_files fs (exts self) (in_dir self)) (class_dirs_in fs (in_dir self) names)) \<and>
    class_numbers ds = class_numbers self
       @ numbered (num_classes self)
           (map (\<lambda>name. length (train_files fs (exts self) (in_dir self) name))
                (class_dirs_in fs (in_dir self) names)) \<and>
    filenames_test ds = filenames_test self
       @ concat (map (test_files fs (exts self) (in_dir self)) (class_dirs_in fs (in_dir self) names)) \<and>
    class_numbers_test ds = class_numbers_test self
       @ numbered (num_classes self)
           (map (\<lambda>name. length (test_files fs (exts self) (in_dir self) name))
                (class_dirs_in fs (in_dir self) names))"
  using assms
proof (induction names arbitrary: self)
  case Nil
  then show ?case by (simp add: class_dirs_in_def)
next
  case (Cons name names)
  from Cons.prems obtain self' where
    body: "init_body fs self name = Inr self'" and loop: "init_loop fs self' names = Inr ds"
    by (auto split: sum.splits)
  note IH = Cons.IH [OF loop]
  show ?case
  proof (cases "isdir fs (os_path_join (in_dir self) [name])")
    case False
    then have "self' = self"
      using body by (simp add: init_body_nodir)
    then show ?thesis
      using IH False by (simp add: class_dirs_in_def)
  next
    case True
    note s = init_body_dir [OF True body]
    have f: "in_dir self' = in_dir self" "exts self' = exts self"
      "num_classes self' = num_classes self + 1"
      "class_names self' = class_names self @ [name]"
      "filenames self' = filenames self @ train_files fs (exts self) (in_dir self) name"
      "filenames_test self' = filenames_test self @ test_files fs (exts self) (in_dir self) name"
      "class_numbers self' = class_numbers self
          @ replicate (length (train_files fs (exts self) (in_dir self) name)) (num_classes self)"
      "class_numbers_test self' = class_numbers_test self
          @ replicate (length (test_files fs (exts self) (in_dir self) name)) (num_classes self)"
      by (simp_all add: s)
    have d: "class_dirs_in fs (in_dir self) (name # names)
               = name # class_dirs_in fs (in_dir self) names"
      using True by (simp add: class_dirs_in_def)
    show ?thesis
      using IH unfolding f d by simp
  qed
qed

lemma DataSet_init_result:
  assumes "DataSet_init fs d e = Inr ds"
  shows "\<exists>names. listdir fs (abspath fs d) = Inr names \<and>
    in_dir ds = abspath fs d \<and> exts ds = map lower (iter_exts e) \<and>
    class_names ds = class_dirs_in fs (in_dir ds) names \<and>
    num_classes ds = int (length (class_names ds)) \<and>
    filenames ds = concat (map (train_files fs (exts ds) (in_dir ds)) (class_names ds)) \<and>
    class_numbers ds
      = numbered 0 (map length (map (train_files fs (exts ds) (in_dir ds)) (class_names ds))) \<and>
    filenames_test ds = concat (map (test_files fs (exts ds) (in_dir ds)) (class_names ds)) \<and>
    class_numbers_test ds
      = numbered 0 (map length (map (test_files fs (exts ds) (in_dir ds)) (class_names ds)))"
proof -
  let ?self = "\<lparr>in_dir = abspath fs d, exts = map lower (iter_exts e), class_names = [],
                 filenames = [], filenames_test = [], class_numbers = [],
                 class_numbers_test = [], num_classes = 0\<rparr>"
  from assms obtain names where
    l: "listdir fs (abspath fs d) = Inr names" and
    i: "init_loop fs ?self names = Inr ds"
    by (auto simp: DataSet_init_def Let_def split: sum.splits)
  show ?thesis
    using init_loop_result [OF i] l by (simp add: comp_def)
qed

lemma DataSet_init_lengths:
  assumes "DataSet_init fs d e = Inr ds"
  shows "length (class_numbers ds) = length (filenames ds)"
    and "length (class_numbers_test ds) = length (filenames_test ds)"
proof -
  from DataSet_init_result [OF assms] obtain names where
    r: "filenames ds = concat (map (train_files fs (exts ds) (in_dir ds)) (class_names ds))"
    "class_numbers ds
      = numbered 0 (map length (map (train_files fs (exts ds) (in_dir ds)) (class_names ds)))"
    "filenames_test ds = concat (map (test_files fs (exts ds) (in_dir ds)) (class_names ds))"
    "class_numbers_test ds
      = numbered 0 (map length (map (test_files fs (exts ds) (in_dir ds)) (class_names ds)))"
    by blast
  show "length (class_numbers ds) = length (filenames ds)"
    unfolding r(1) r(2) by (rule length_numbered_concat)
  show "length (class_numbers_test ds) = length (filenames_test ds)"
    unfolding r(3) r(4) by (rule length_numbered_concat)
qed

lemma DataSet_init_valid:
  assumes "DataSet_init fs d e = Inr ds"
  shows "int (length (class_names ds)) = num_classes ds \<and>
         (\<forall>c\<in>set (class_numbers ds @ class_numbers_test ds). 0 \<le> c \<and> c < num_classes ds)"
proof -
  from DataSet_init_result [OF assms] obtain names where
    r: "num_classes ds = int (length (class_names ds))"
    "class_numbers ds
      = numbered 0 (map length (map (train_files fs (exts ds) (in_dir ds)) (class_names ds)))"
    "class_numbers_test ds
      = numbered 0 (map length (map (test_files fs (exts ds) (in_dir ds)) (class_names ds)))"
    by blast
  have "0 \<le> c \<and> c < num_classes ds" if "c \<in> set (class_numbers ds)" for c
    using that numbered_bounds [of c 0] unfolding r(2) r(1) by fastforce
  moreover have "0 \<le> c \<and> c < num_classes ds" if "c \<in> set (class_numbers_test ds)" for c
    using that numbered_bounds [of c 0] unfolding r(3) r(1) by fastforce
  ultimately show ?thesis
    using r(1) by auto
qed

lemma scan_unreadable: "listdir fs dir = Inl err \<Longrightarrow> scan fs es dir = []"
  unfolding scan_def by simp

lemma scan_missing: "\<not> exists fs dir \<Longrightarrow> scan fs es dir = []"
  unfolding scan_def by simp

lemma scan_listed: "exists fs dir \<Longrightarrow> listdir fs dir = Inr entries \<Longrightarrow> scan fs es dir = filter (\<lambda>filename. endswith (lower filename) es) entries"
  unfolding scan_def by simp

lemma scan_member:
  assumes "x \<in> set (scan fs es dir)"
  shows "\<exists>entries. exists fs dir \<and> listdir fs dir = Inr entries \<and> x \<in> set entries
           \<and> endswith (lower x) es"
proof (cases "listdir fs dir")
  case (Inl err)
  from assms show ?thesis
    unfolding scan_unreadable [OF Inl] by simp
next
  case (Inr entries)
  show ?thesis
  proof (cases "exists fs dir")
    case True
    from assms show ?thesis
      unfolding scan_listed [OF True Inr] using True Inr by simp
  next
    case False
    from assms show ?thesis
      unfolding scan_missing [OF False] by simp
  qed
qed

lemma names_ok_entry:
  "names_ok fs \<Longrightarrow> listdir fs p = Inr entries \<Longrightarrow> n \<in> set entries
     \<Longrightarrow> n \<noteq> [] \<and> CHR ''/'' \<notin> set n"
  unfolding names_ok_def by blast

lemma names_ok_scan:
  assumes "names_ok fs" and "x \<in> set (scan fs es dir)"
  shows "x \<noteq> [] \<and> CHR ''/'' \<notin> set x"
  using scan_member [OF assms(2)] names_ok_entry [OF assms(1)] by blast

lemma DataSet_init_names:
  assumes "DataSet_init fs d e = Inr ds" and "names_ok fs"
  shows "\<forall>n\<in>set (class_names ds) \<union> set (filenames ds) \<union> set (filenames_test ds).
           n \<noteq> [] \<and> CHR ''/'' \<notin> set n"
proof -
  from DataSet_init_result [OF assms(1)] obtain names where
    l: "listdir fs (abspath fs d) = Inr names" and
    c: "class_names ds = class_dirs_in fs (in_dir ds) names" and
    f: "filenames ds = concat (map (train_files fs (exts ds) (in_dir ds)) (class_names ds))" and
    t: "filenames_test ds = concat (map (test_files fs (exts ds) (in_dir ds)) (class_names ds))"
    by blast
  have "n \<noteq> [] \<and> CHR ''/'' \<notin> set n" if "n \<in> set (class_names ds)" for n
    using that names_ok_entry [OF assms(2) l, of n] by (simp add: c class_dirs_in_def)
  moreover have "n \<noteq> [] \<and> CHR ''/'' \<notin> set n" if "n \<in> set (filenames ds)" for n
    using that names_ok_scan [OF assms(2), of n] unfolding f by (auto simp: train_files_def)
  moreover have "n \<noteq> [] \<and> CHR ''/'' \<notin> set n" if "n \<in> set (filenames_test ds)" for n
    using that names_ok_scan [OF assms(2), of n] unfolding t by (auto simp: test_files_def)
  ultimately show ?thesis
    by blast
qed

lemma py_index_valid: "0 \<le> c \<Longrightarrow> c < int (length xs) \<Longrightarrow> py_index xs c = Inr (xs ! nat c)"
  by (simp add: py_index_def)

lemma get_paths_constructed:
  assumes "DataSet_init fs d e = Inr ds" and "names_ok fs"
  shows "get_paths ds False
           = map Inr (map (\<lambda>(filename, cls).
                             with_sep (in_dir ds) @ class_names ds ! nat cls @ ''/'' @ filename)
                          (zip (filenames ds) (class_numbers ds)))"
    and "get_paths ds True
           = map Inr (map (\<lambda>(filename, cls).
                             with_sep (in_dir ds) @ class_names ds ! nat cls @ ''/test/'' @ filename)
                          (zip (filenames_test ds) (class_numbers_test ds)))"
proof -
  note v = DataSet_init_valid [OF assms(1)]
  note n = DataSet_init_names [OF assms]
  have cls: "py_index (class_names ds) c = Inr (class_names ds ! nat c)
             \<and> class_names ds ! nat c \<noteq> [] \<and> CHR ''/'' \<notin> set (class_names ds ! nat c)"
    if "c \<in> set (class_numbers ds @ class_numbers_test ds)" for c
  proof -
    have b: "0 \<le> c" "c < int (length (class_names ds))"
      using v that by auto
    then have "class_names ds ! nat c \<in> set (class_names ds)"
      by simp
    then show ?thesis
      using n b by (simp add: py_index_valid)
  qed
  have "(case py_index (class_names ds) c of
           Inl e \<Rightarrow> Inl e
         | Inr class_name \<Rightarrow> Inr (os_path_join (in_dir ds) [class_name, [], f]))
        = Inr (with_sep (in_dir ds) @ class_names ds ! nat c @ ''/'' @ f)"
    if "(f, c) \<in> set (zip (filenames ds) (class_numbers ds))" for f c
  proof -
    have "f \<in> set (filenames ds)" "c \<in> set (class_numbers ds)"
      using that by (auto dest: set_zip_leftD set_zip_rightD)
    then show ?thesis
      using cls [of c] n by (simp add: join_train)
  qed
  then show "get_paths ds False
           = map Inr (map (\<lambda>(filename, cls).
                             with_sep (in_dir ds) @ class_names ds ! nat cls @ ''/'' @ filename)
                          (zip (filenames ds) (class_numbers ds)))"
    by (auto simp: get_paths_def)
  have "(case py_index (class_names ds) c of
           Inl e \<Rightarrow> Inl e
         | Inr class_name \<Rightarrow> Inr (os_path_join (in_dir ds) [class_name, ''test/'', f]))
        = Inr (with_sep (in_dir ds) @ class_names ds ! nat c @ ''/test/'' @ f)"
    if "(f, c) \<in> set (zip (filenames_test ds) (class_numbers_test ds))" for f c
  proof -
    have "f \<in> set (filenames_test ds)" "c \<in> set (class_numbers_test ds)"
      using that by (auto dest: set_zip_leftD set_zip_rightD)
    then show ?thesis
      using cls [of c] n by (simp add: join_test)
  qed
  then show "get_paths ds True
           = map Inr (map (\<lambda>(filename, cls).
                             with_sep (in_dir ds) @ class_names ds ! nat cls @ ''/test/'' @ filename)
                          (zip (filenames_test ds) (class_numbers_test ds)))"
    by (auto simp: get_paths_def)
qed

section \<open>One-hot encoding\<close>

lemma sequence_map_Inr: "sequence (map Inr xs) = Inr xs"
  by (induction xs) simp_all

lemma np_take_in_range:
  assumes "\<forall>i\<in>set idx. 0 \<le> i \<and> i < int (length a)"
  shows "np_take a idx = Inr (map (\<lambda>i. a ! nat i) idx)"
proof -
  have "map (py_index a) idx = map Inr (map (\<lambda>i. a ! nat i) idx)"
    using assms by (simp add: py_index_def)
  then show ?thesis
    by (simp only: np_take_def sequence_map_Inr)
qed

lemma unit_row_split:
  assumes "k < n"
  shows "unit_row n k = replicate k 0 @ 1 # replicate (n - Suc k) 0"
  using assms by (intro nth_equalityI) (auto simp: unit_row_def nth_append nth_Cons')

lemma argmax_unit_row:
  assumes "k < n"
  shows "argmax (unit_row n k) = Inr k"
proof -
  have s: "set (unit_row n k) \<subseteq> {0, 1}" "1 \<in> set (unit_row n k)"
    using assms by (auto simp: unit_row_split)
  have fin: "finite (set (unit_row n k))" by simp
  have "Max (set (unit_row n k)) = 1"
    using s by (intro Max_eqI) auto
  moreover have "unit_row n k \<noteq> []" using assms by (simp add: unit_row_split)
  moreover have "takeWhile (\<lambda>x. x \<noteq> 1) (unit_row n k) = replicate k 0"
  proof -
    have "takeWhile (\<lambda>x. x \<noteq> 1) (replicate k (0::real) @ 1 # replicate (n - Suc k) 0)
            = replicate k 0 @ takeWhile (\<lambda>x. x \<noteq> 1) (1 # replicate (n - Suc k) 0)"
      by (rule takeWhile_append2) simp
    then show ?thesis
      using assms by (simp add: unit_row_split)
  qed
  ultimately show ?thesis
    by (simp add: argmax_def)
qed

lemma count_unit_row:
  assumes "k < n"
  shows "count_list (unit_row n k) 1 = 1"
  using assms by (simp add: unit_row_split count_list_0_iff)

lemma one_hot_encoded_in_range:
  assumes "\<forall>c\<in>set cns. 0 \<le> c \<and> c < n" and "0 \<le> n"
  shows "one_hot_encoded cns (Some n)
           = Inr (map (\<lambda>c. unit_row (nat n) (nat c)) cns)"
proof -
  have False: "\<not> n < 0" using assms by simp
  let ?I = "map (unit_row (nat n)) [0..<nat n]"
  have e: "eye n = Inr ?I"
    using False by (simp add: eye_def unit_row_def)
  have r: "\<forall>i\<in>set cns. 0 \<le> i \<and> i < int (length ?I)"
    using assms False by simp
  have "np_take ?I cns = Inr (map (\<lambda>i. ?I ! nat i) cns)"
    by (rule np_take_in_range [OF r])
  also have "map (\<lambda>i. ?I ! nat i) cns = map (\<lambda>c. unit_row (nat n) (nat c)) cns"
    using assms by (auto simp del: upt_Suc)
  finally show ?thesis
    by (simp add: one_hot_encoded_def e)
qed


lemma int64_in_range: "- (2 ^ 63) \<le> x \<Longrightarrow> x < 2 ^ 63 \<Longrightarrow> int64 x = x"
  by (simp add: int64_def)

lemma int64_wraps: "int64 (2 ^ 63) = - (2 ^ 63)"
  by (simp add: int64_def)

lemma Max_in_range:
  fixes cns :: "int list"
  assumes "cns \<noteq> []" and "\<forall>c\<in>set cns. - (2 ^ 63) \<le> c \<and> c < 2 ^ 63"
  shows "- (2 ^ 63) \<le> Max (set cns)"
proof -
  have "Max (set cns) \<in> set cns"
    using assms(1) by (intro Max_in) simp_all
  with assms(2) show ?thesis
    by blast
qed

lemma default_num_classes_in_range:
  assumes "cns \<noteq> []" and "\<forall>c\<in>set cns. - (2 ^ 63) \<le> c \<and> c < 2 ^ 63"
    and "Max (set cns) < 2 ^ 63 - 1"
  shows "default_num_classes cns = Inr (Max (set cns) + 1)"
proof -
  have "int64 (Max (set cns) + 1) = Max (set cns) + 1"
    using Max_in_range [OF assms(1,2)] assms(3) by (intro int64_in_range) simp_all
  then show ?thesis
    using assms(1) by (simp add: default_num_classes_def np_max_def)
qed

lemma default_num_classes_wraps:
  assumes "cns \<noteq> []" and "Max (set cns) = 2 ^ 63 - 1"
  shows "default_num_classes cns = Inr (- (2 ^ 63))"
  using assms by (simp add: default_num_classes_def np_max_def int64_def)

text \<open>
  Claim C2, as amended. When the number of classes \<open>n\<close> is given and every class number
  \<open>c\<close> of the input satisfies \<open>0 \<le> c < n\<close>, \<^verbatim>\<open>one_hot_encoded\<close> returns one row per
  class number, in order; the row for \<open>c\<close> has length \<open>n\<close>, holds \<open>1.0\<close> at position \<open>c\<close>
  and \<open>0.0\<close> at every other position, so its \<^verbatim>\<open>argmax\<close> is \<open>c\<close> and exactly one entry
  equals \<open>1.0\<close>. When the number of classes is not given and the class numbers are 64-bit
  signed integers, the number of classes is \<open>max(class_numbers) + 1\<close> computed in 64 bits:
  below the largest 64-bit integer the function behaves as if it had been given
  \<open>max(class_numbers) + 1\<close>; at the largest 64-bit integer the sum wraps to \<open>-2^63\<close> and the
  function raises \<^verbatim>\<open>ValueError\<close>.
\<close>

theorem one_hot_encoded_rows:
  "(0 \<le> n \<and> (\<forall>c\<in>set cns. 0 \<le> c \<and> c < n) \<longrightarrow>
     (\<exists>labels.
        one_hot_encoded cns (Some n) = Inr labels \<and>
        length labels = length cns \<and>
        (\<forall>i<length cns.
           length (labels ! i) = nat n \<and>
           (\<forall>j<nat n. labels ! i ! j = (if int j = cns ! i then 1 else 0)) \<and>
           argmax (labels ! i) = Inr (nat (cns ! i)) \<and>
           count_list (labels ! i) 1 = 1))) \<and>
   (cns \<noteq> [] \<and> (\<forall>c\<in>set cns. - (2 ^ 63) \<le> c \<and> c < 2 ^ 63) \<and>
    Max (set cns) < 2 ^ 63 - 1 \<longrightarrow>
      default_num_classes cns = Inr (Max (set cns) + 1) \<and>
      one_hot_encoded cns None = one_hot_encoded cns (Some (Max (set cns) + 1))) \<and>
   (cns \<noteq> [] \<and> Max (set cns) = 2 ^ 63 - 1 \<longrightarrow>
      default_num_classes cns = Inr (- (2 ^ 63)) \<and>
      one_hot_encoded cns None = Inl ValueError)"
proof (intro conjI impI)
  assume r: "cns \<noteq> [] \<and> (\<forall>c\<in>set cns. - (2 ^ 63) \<le> c \<and> c < 2 ^ 63) \<and>
    Max (set cns) < 2 ^ 63 - 1"
  then show d: "default_num_classes cns = Inr (Max (set cns) + 1)"
    by (intro default_num_classes_in_range) simp_all
  show "one_hot_encoded cns None = one_hot_encoded cns (Some (Max (set cns) + 1))"
    by (simp add: one_hot_encoded_def d)
next
  assume w: "cns \<noteq> [] \<and> Max (set cns) = 2 ^ 63 - 1"
  then show d: "default_num_classes cns = Inr (- (2 ^ 63))"
    by (intro default_num_classes_wraps) simp_all
  show "one_hot_encoded cns None = Inl ValueError"
    by (simp add: one_hot_encoded_def d eye_def)
next
  assume a0: "0 \<le> n \<and> (\<forall>c\<in>set cns. 0 \<le> c \<and> c < n)"
  then have a: "\<forall>c\<in>set cns. 0 \<le> c \<and> c < n" and n: "0 \<le> n"
    by simp_all
  let ?labels = "map (\<lambda>c. unit_row (nat n) (nat c)) cns"
  have rows: "\<forall>i<length cns.
         length (?labels ! i) = nat n \<and>
         (\<forall>j<nat n. ?labels ! i ! j = (if int j = cns ! i then 1 else 0)) \<and>
         argmax (?labels ! i) = Inr (nat (cns ! i)) \<and>
         count_list (?labels ! i) 1 = 1"
  proof (intro allI impI)
    fix i
    assume i: "i < length cns"
    then have c: "0 \<le> cns ! i" "cns ! i < n"
      using a by auto
    then have k: "nat (cns ! i) < nat n"
      by simp
    have l: "?labels ! i = unit_row (nat n) (nat (cns ! i))"
      using i by simp
    have "\<forall>j<nat n. unit_row (nat n) (nat (cns ! i)) ! j = (if int j = cns ! i then 1 else 0)"
      using c by (auto simp: unit_row_def)
    then show "length (?labels ! i) = nat n \<and>
         (\<forall>j<nat n. ?labels ! i ! j = (if int j = cns ! i then 1 else 0)) \<and>
         argmax (?labels ! i) = Inr (nat (cns ! i)) \<and>
         count_list (?labels ! i) 1 = 1"
      unfolding l using argmax_unit_row [OF k] count_unit_row [OF k]
      by (simp add: unit_row_def)
  qed
  show "\<exists>labels.
      one_hot_encoded cns (Some n) = Inr labels \<and>
      length labels = length cns \<and>
      (\<forall>i<length cns.
         length (labels ! i) = nat n \<and>
         (\<forall>j<nat n. labels ! i ! j = (if int j = cns ! i then 1 else 0)) \<and>
         argmax (labels ! i) = Inr (nat (cns ! i)) \<and>
         count_list (labels ! i) 1 = 1)"
    using one_hot_encoded_in_range [OF a n] rows
    by (intro exI [of _ ?labels]) simp
qed

theorem one_hot_encoded_rows_witness:
  "(0::int) \<le> 4 \<and> [2, 0::int] \<noteq> [] \<and>
   (\<exists>labels.
      one_hot_encoded [2, 0] (Some 4) = Inr labels \<and>
      length labels = length [2, 0::int] \<and>
      (\<forall>i<length [2, 0::int].
         length (labels ! i) = nat 4 \<and>
         (\<forall>j<nat 4. labels ! i ! j = (if int j = [2, 0] ! i then 1 else 0)) \<and>
         argmax (labels ! i) = Inr (nat ([2, 0] ! i)) \<and>
         count_list (labels ! i) 1 = 1)) \<and>
   Max (set [2, 0::int]) < 2 ^ 63 - 1 \<and>
   default_num_classes [2, 0] = Inr (Max (set [2, 0]) + 1) \<and>
   one_hot_encoded [2, 0] None = one_hot_encoded [2, 0] (Some (Max (set [2, 0]) + 1)) \<and>
   [9223372036854775807::int] \<noteq> [] \<and>
   Max (set [9223372036854775807::int]) = 2 ^ 63 - 1 \<and>
   default_num_classes [9223372036854775807] = Inr (- (2 ^ 63)) \<and>
   one_hot_encoded [9223372036854775807] None = Inl ValueError"
proof -
  have h1: "(0::int) \<le> 4 \<and> (\<forall>c\<in>set [2, 0::int]. 0 \<le> c \<and> c < 4)"
    by simp
  have h2: "[2, 0::int] \<noteq> []"
    by simp
  have h3: "\<forall>c\<in>set [2, 0::int]. - (2 ^ 63) \<le> c \<and> c < 2 ^ 63"
    by simp
  have h4: "Max (set [2, 0::int]) < 2 ^ 63 - 1"
    by simp
  have h5: "[9223372036854775807::int] \<noteq> []"
    by simp
  have h6: "Max (set [9223372036854775807::int]) = 2 ^ 63 - 1"
    by simp
  note t = one_hot_encoded_rows [of 4 "[2, 0]"]
  note u = one_hot_encoded_rows [of 0 "[9223372036854775807]"]
  from t h1 have c1: "\<exists>labels.
      one_hot_encoded [2, 0] (Some 4) = Inr labels \<and>
      length labels = length [2, 0::int] \<and>
      (\<forall>i<length [2, 0::int].
         length (labels ! i) = nat 4 \<and>
         (\<forall>j<nat 4. labels ! i ! j = (if int j = [2, 0] ! i then 1 else 0)) \<and>
         argmax (labels ! i) = Inr (nat ([2, 0] ! i)) \<and>
         count_list (labels ! i) 1 = 1)"
    by blast
  from t h2 h3 h4 have c2: "default_num_classes [2, 0] = Inr (Max (set [2, 0]) + 1) \<and>
      one_hot_encoded [2, 0] None = one_hot_encoded [2, 0] (Some (Max (set [2, 0]) + 1))"
    by blast
  from u h5 h6 have c3: "default_num_classes [9223372036854775807] = Inr (- (2 ^ 63)) \<and>
      one_hot_encoded [9223372036854775807] None = Inl ValueError"
    by blast
  from h2 h4 h5 h6 c1 c2 c3 show ?thesis
    by simp
qed

text \<open>
  The claim as first stated says that the default is \<open>max(class_numbers) + 1\<close>. For the
  one class number \<open>2^63 - 1\<close>, the largest 64-bit signed integer, that is \<open>2^63\<close>; the
  function computes \<open>-2^63\<close> and \<^verbatim>\<open>np.eye\<close> raises \<^verbatim>\<open>ValueError\<close> for the negative size.
\<close>

theorem default_num_classes_counterexample:
  "Max (set [9223372036854775807::int]) + 1 = 9223372036854775808 \<and>
   default_num_classes [9223372036854775807] = Inr (- 9223372036854775808) \<and>
   default_num_classes [9223372036854775807]
     \<noteq> Inr (Max (set [9223372036854775807::int]) + 1) \<and>
   one_hot_encoded [9223372036854775807] None = Inl ValueError"
  by (simp add: one_hot_encoded_def default_num_classes_def np_max_def int64_def eye_def)

text \<open>The example of the docstring: class number 2 of 4 classes.\<close>

lemma one_hot_encoded_docstring: "one_hot_encoded [2] (Some 4) = Inr [[0, 0, 1, 0]]"
  by (simp add: one_hot_encoded_def eye_def np_take_def py_index_def upt_conv_Cons)


section \<open>Facts about the training and the test set\<close>

lemma DataSet_init_file_of_class:
  assumes "DataSet_init fs d e = Inr ds"
  shows "\<forall>i<length (filenames ds).
           filenames ds ! i
             \<in> set (train_files fs (exts ds) (in_dir ds)
                      (class_names ds ! nat (class_numbers ds ! i)))"
    and "\<forall>i<length (filenames_test ds).
           filenames_test ds ! i
             \<in> set (test_files fs (exts ds) (in_dir ds)
                      (class_names ds ! nat (class_numbers_test ds ! i)))"
proof -
  from DataSet_init_result [OF assms] obtain names where
    r: "filenames ds = concat (map (train_files fs (exts ds) (in_dir ds)) (class_names ds))"
    "class_numbers ds
      = numbered 0 (map length (map (train_files fs (exts ds) (in_dir ds)) (class_names ds)))"
    "filenames_test ds = concat (map (test_files fs (exts ds) (in_dir ds)) (class_names ds))"
    "class_numbers_test ds
      = numbered 0 (map length (map (test_files fs (exts ds) (in_dir ds)) (class_names ds)))"
    by blast
  show "\<forall>i<length (filenames ds).
           filenames ds ! i
             \<in> set (train_files fs (exts ds) (in_dir ds)
                      (class_names ds ! nat (class_numbers ds ! i)))"
  proof (intro allI impI)
    fix i
    assume "i < length (filenames ds)"
    then have i: "i < length (concat (map (train_files fs (exts ds) (in_dir ds)) (class_names ds)))"
      by (simp only: r(1))
    from nth_numbered_concat [OF i, of 0]
    have "0 \<le> class_numbers ds ! i" "class_numbers ds ! i < int (length (class_names ds))"
      "filenames ds ! i
         \<in> set (map (train_files fs (exts ds) (in_dir ds)) (class_names ds)
                  ! nat (class_numbers ds ! i))"
      unfolding r(1) [symmetric] r(2) [symmetric] by simp_all
    then show "filenames ds ! i
             \<in> set (train_files fs (exts ds) (in_dir ds)
                      (class_names ds ! nat (class_numbers ds ! i)))"
      by simp
  qed
  show "\<forall>i<length (filenames_test ds).
           filenames_test ds ! i
             \<in> set (test_files fs (exts ds) (in_dir ds)
                      (class_names ds ! nat (class_numbers_test ds ! i)))"
  proof (intro allI impI)
    fix i
    assume "i < length (filenames_test ds)"
    then have i: "i < length (concat (map (test_files fs (exts ds) (in_dir ds)) (class_names ds)))"
      by (simp only: r(3))
    from nth_numbered_concat [OF i, of 0]
    have "0 \<le> class_numbers_test ds ! i"
      "class_numbers_test ds ! i < int (length (class_names ds))"
      "filenames_test ds ! i
         \<in> set (map (test_files fs (exts ds) (in_dir ds)) (class_names ds)
                  ! nat (class_numbers_test ds ! i))"
      unfolding r(3) [symmetric] r(4) [symmetric] by simp_all
    then show "filenames_test ds ! i
             \<in> set (test_files fs (exts ds) (in_dir ds)
                      (class_names ds ! nat (class_numbers_test ds ! i)))"
      by simp
  qed
qed

lemma one_hot_encoded_constructed:
  assumes "DataSet_init fs d e = Inr ds"
  shows "one_hot_encoded (class_numbers ds) (Some (num_classes ds))
           = Inr (map (\<lambda>c. unit_row (nat (num_classes ds)) (nat c)) (class_numbers ds))"
    and "one_hot_encoded (class_numbers_test ds) (Some (num_classes ds))
           = Inr (map (\<lambda>c. unit_row (nat (num_classes ds)) (nat c)) (class_numbers_test ds))"
proof -
  note v = DataSet_init_valid [OF assms]
  have n: "0 \<le> num_classes ds"
    using v by linarith
  have a: "\<forall>c\<in>set (class_numbers ds). 0 \<le> c \<and> c < num_classes ds"
    using v by simp
  have b: "\<forall>c\<in>set (class_numbers_test ds). 0 \<le> c \<and> c < num_classes ds"
    using v by simp
  show "one_hot_encoded (class_numbers ds) (Some (num_classes ds))
           = Inr (map (\<lambda>c. unit_row (nat (num_classes ds)) (nat c)) (class_numbers ds))"
    by (rule one_hot_encoded_in_range [OF a n])
  show "one_hot_encoded (class_numbers_test ds) (Some (num_classes ds))
           = Inr (map (\<lambda>c. unit_row (nat (num_classes ds)) (nat c)) (class_numbers_test ds))"
    by (rule one_hot_encoded_in_range [OF b n])
qed


section \<open>Invariants of a constructed data set\<close>

lemma clouds_constructed:
  "DataSet_init fs_clouds ''data/clouds-images/'' default_exts = Inr ds_clouds"
  by code_simp

lemma clouds_names_ok: "names_ok fs_clouds"
  by (auto simp: names_ok_def fs_clouds_def split: if_splits)

text \<open>
  Claim C8. Whenever the constructor succeeds, the number of class names equals
  \<^verbatim>\<open>num_classes\<close>, and every class number stored for the training set or for the test
  set satisfies \<open>0 \<le> c < num_classes\<close>, so it is a valid index into \<^verbatim>\<open>class_names\<close>.
\<close>

theorem class_numbers_valid:
  assumes "DataSet_init fs d e = Inr ds"
  shows "int (length (class_names ds)) = num_classes ds \<and>
         (\<forall>c\<in>set (class_numbers ds @ class_numbers_test ds). 0 \<le> c \<and> c < num_classes ds)"
  by (rule DataSet_init_valid [OF assms])

theorem class_numbers_valid_witness:
  "DataSet_init fs_clouds ''data/clouds-images/'' default_exts = Inr ds_clouds \<and>
   int (length (class_names ds_clouds)) = num_classes ds_clouds \<and>
   list_all (\<lambda>c. 0 \<le> c \<and> c < num_classes ds_clouds)
     (class_numbers ds_clouds @ class_numbers_test ds_clouds)"
proof -
  note h = clouds_constructed
  from class_numbers_valid [OF h]
  have "int (length (class_names ds_clouds)) = num_classes ds_clouds \<and>
        list_all (\<lambda>c. 0 \<le> c \<and> c < num_classes ds_clouds)
          (class_numbers ds_clouds @ class_numbers_test ds_clouds)"
    by (simp only: Ball_set)
  with h show ?thesis
    by (rule conjI)
qed

section \<open>The parallel sequences of the accessors\<close>

text \<open>
  Claim C3. For a data set made by the constructor (from a file system whose listings
  hold proper names), \<^verbatim>\<open>get_training_set\<close> and \<^verbatim>\<open>get_test_set\<close> return paths,
  class numbers and one-hot labels of the same length; at every index the path is the
  root, the class name \<^verbatim>\<open>class_names[class_numbers[i]]\<close>, the test marker for the test
  set, and the file name \<^verbatim>\<open>filenames[i]\<close>, and that file is one the scan found in the
  directory of this very class. The file names are kept in enumeration order: class
  after class in discovery order, inside a class in the order of its listing.
\<close>

theorem training_and_test_sets_aligned:
  assumes "DataSet_init fs d e = Inr ds" and "names_ok fs"
  shows "\<exists>paths labels paths_test labels_test.
     get_training_set ds = Inr (paths, class_numbers ds, labels) \<and>
     length paths = length (class_numbers ds) \<and>
     length labels = length (class_numbers ds) \<and>
     (\<forall>i<length paths.
        \<exists>class_name. py_index (class_names ds) (class_numbers ds ! i) = Inr class_name \<and>
          paths ! i = with_sep (in_dir ds) @ class_name @ ''/'' @ filenames ds ! i \<and>
          filenames ds ! i \<in> set (train_files fs (exts ds) (in_dir ds) class_name)) \<and>
     get_test_set ds = Inr (paths_test, class_numbers_test ds, labels_test) \<and>
     length paths_test = length (class_numbers_test ds) \<and>
     length labels_test = length (class_numbers_test ds) \<and>
     (\<forall>i<length paths_test.
        \<exists>class_name. py_index (class_names ds) (class_numbers_test ds ! i) = Inr class_name \<and>
          paths_test ! i = with_sep (in_dir ds) @ class_name @ ''/test/'' @ filenames_test ds ! i \<and>
          filenames_test ds ! i \<in> set (test_files fs (exts ds) (in_dir ds) class_name)) \<and>
     filenames ds = concat (map (train_files fs (exts ds) (in_dir ds)) (class_names ds)) \<and>
     filenames_test ds = concat (map (test_files fs (exts ds) (in_dir ds)) (class_names ds))"
proof -
  let ?paths = "map (\<lambda>(filename, cls).
                      with_sep (in_dir ds) @ class_names ds ! nat cls @ ''/'' @ filename)
                    (zip (filenames ds) (class_numbers ds))"
  let ?paths_test = "map (\<lambda>(filename, cls).
                      with_sep (in_dir ds) @ class_names ds ! nat cls @ ''/test/'' @ filename)
                    (zip (filenames_test ds) (class_numbers_test ds))"
  let ?labels = "map (\<lambda>c. unit_row (nat (num_classes ds)) (nat c)) (class_numbers ds)"
  let ?labels_test = "map (\<lambda>c. unit_row (nat (num_classes ds)) (nat c)) (class_numbers_test ds)"
  note len = DataSet_init_lengths [OF assms(1)]
  note v = DataSet_init_valid [OF assms(1)]
  note oh = one_hot_encoded_constructed [OF assms(1)]
  note gp = get_paths_constructed [OF assms]
  note fc = DataSet_init_file_of_class [OF assms(1)]
  have train: "get_training_set ds = Inr (?paths, class_numbers ds, ?labels)"
    by (simp only: get_training_set_def gp(1) sequence_map_Inr oh(1) sum.case)
  have test: "get_test_set ds = Inr (?paths_test, class_numbers_test ds, ?labels_test)"
    by (simp only: get_test_set_def gp(2) sequence_map_Inr oh(2) sum.case)
  have idx: "py_index (class_names ds) c = Inr (class_names ds ! nat c)"
    if "c \<in> set (class_numbers ds @ class_numbers_test ds)" for c
    using v that by (intro py_index_valid) auto
  have a: "\<forall>i<length ?paths.
        \<exists>class_name. py_index (class_names ds) (class_numbers ds ! i) = Inr class_name \<and>
          ?paths ! i = with_sep (in_dir ds) @ class_name @ ''/'' @ filenames ds ! i \<and>
          filenames ds ! i \<in> set (train_files fs (exts ds) (in_dir ds) class_name)"
  proof (intro allI impI)
    fix i
    assume "i < length ?paths"
    then have i: "i < length (filenames ds)" "i < length (class_numbers ds)"
      by simp_all
    then have "class_numbers ds ! i \<in> set (class_numbers ds @ class_numbers_test ds)"
      by simp
    from idx [OF this] i fc(1)
    show "\<exists>class_name. py_index (class_names ds) (class_numbers ds ! i) = Inr class_name \<and>
          ?paths ! i = with_sep (in_dir ds) @ class_name @ ''/'' @ filenames ds ! i \<and>
          filenames ds ! i \<in> set (train_files fs (exts ds) (in_dir ds) class_name)"
      by simp
  qed
  have b: "\<forall>i<length ?paths_test.
        \<exists>class_name. py_index (class_names ds) (class_numbers_test ds ! i) = Inr class_name \<and>
          ?paths_test ! i
            = with_sep (in_dir ds) @ class_name @ ''/test/'' @ filenames_test ds ! i \<and>
          filenames_test ds ! i \<in> set (test_files fs (exts ds) (in_dir ds) class_name)"
  proof (intro allI impI)
    fix i
    assume "i < length ?paths_test"
    then have i: "i < length (filenames_test ds)" "i < length (class_numbers_test ds)"
      by simp_all
    then have "class_numbers_test ds ! i \<in> set (class_numbers ds @ class_numbers_test ds)"
      by simp
    from idx [OF this] i fc(2)
    show "\<exists>class_name. py_index (class_names ds) (class_numbers_test ds ! i) = Inr class_name \<and>
          ?paths_test ! i
            = with_sep (in_dir ds) @ class_name @ ''/test/'' @ filenames_test ds ! i \<and>
          filenames_test ds ! i \<in> set (test_files fs (exts ds) (in_dir ds) class_name)"
      by simp
  qed
  from DataSet_init_result [OF assms(1)] have c:
    "filenames ds = concat (map (train_files fs (exts ds) (in_dir ds)) (class_names ds))"
    "filenames_test ds = concat (map (test_files fs (exts ds) (in_dir ds)) (class_names ds))"
    by blast+
  have l: "length ?paths = length (class_numbers ds)" "length ?labels = length (class_numbers ds)"
    "length ?paths_test = length (class_numbers_test ds)"
    "length ?labels_test = length (class_numbers_test ds)"
    using len by simp_all
  show ?thesis
    using train test l a b c
    by (intro exI [of _ ?paths] exI [of _ ?labels] exI [of _ ?paths_test]
        exI [of _ ?labels_test] conjI)
qed

theorem training_and_test_sets_aligned_witness:
  "DataSet_init fs_clouds ''data/clouds-images/'' default_exts = Inr ds_clouds \<and>
   names_ok fs_clouds \<and>
   (\<exists>paths labels paths_test labels_test.
     get_training_set ds_clouds = Inr (paths, class_numbers ds_clouds, labels) \<and>
     length paths = length (class_numbers ds_clouds) \<and>
     length labels = length (class_numbers ds_clouds) \<and>
     (\<forall>i<length paths.
        \<exists>class_name.
          py_index (class_names ds_clouds) (class_numbers ds_clouds ! i) = Inr class_name \<and>
          paths ! i = with_sep (in_dir ds_clouds) @ class_name @ ''/'' @ filenames ds_clouds ! i \<and>
          filenames ds_clouds ! i
            \<in> set (train_files fs_clouds (exts ds_clouds) (in_dir ds_clouds) class_name)) \<and>
     get_test_set ds_clouds = Inr (paths_test, class_numbers_test ds_clouds, labels_test) \<and>
     length paths_test = length (class_numbers_test ds_clouds) \<and>
     length labels_test = length (class_numbers_test ds_clouds) \<and>
     (\<forall>i<length paths_test.
        \<exists>class_name.
          py_index (class_names ds_clouds) (class_numbers_test ds_clouds ! i) = Inr class_name \<and>
          paths_test ! i
            = with_sep (in_dir ds_clouds) @ class_name @ ''/test/'' @ filenames_test ds_clouds ! i \<and>
          filenames_test ds_clouds ! i
            \<in> set (test_files fs_clouds (exts ds_clouds) (in_dir ds_clouds) class_name)) \<and>
     filenames ds_clouds
       = concat (map (train_files fs_clouds (exts ds_clouds) (in_dir ds_clouds))
                     (class_names ds_clouds)) \<and>
     filenames_test ds_clouds
       = concat (map (test_files fs_clouds (exts ds_clouds) (in_dir ds_clouds))
                     (class_names ds_clouds)))"
proof -
  note h1 = clouds_constructed
  note h2 = clouds_names_ok
  from training_and_test_sets_aligned [OF h1 h2] h1 h2 show ?thesis
    by (intro conjI)
qed

lemma clouds_training_set:
  "get_training_set ds_clouds
     = Inr ([''/home/u/data/clouds-images/cirrus/c1.jpg'',
             ''/home/u/data/clouds-images/cirrus/C2.JPG'',
             ''/home/u/data/clouds-images/cumulus/k1.jpg''],
            [0, 0, 1],
            [[1, 0], [1, 0], [0, 1]])"
  by code_simp

lemma clouds_test_set:
  "get_test_set ds_clouds
     = Inr ([''/home/u/data/clouds-images/cirrus/test/c3.jpg''], [0], [[1, 0]])"
  by code_simp


section \<open>Reconstructed paths\<close>

text \<open>
  Claim C6. For a data set made by the constructor (from a file system whose listings
  hold proper names), \<^verbatim>\<open>get_paths\<close> yields one path per recorded file, and never
  raises: for the training set the path is the root \<^verbatim>\<open>in_dir\<close>, a separator, the
  class name, a separator and the file name; for the test set \<^verbatim>\<open>test/\<close> stands
  between the class name and the file name. Only after a root that is \<^verbatim>\<open>/\<close> or
  \<^verbatim>\<open>//\<close> the first separator is left out, as \<^verbatim>\<open>os.path.join\<close> does. The class
  name is an entry of the listing of the root, unchanged: the class names are exactly the
  listed names that are directories, and the root is the absolute path of the argument.
\<close>

theorem get_paths_reconstructed:
  assumes "DataSet_init fs d e = Inr ds" and "names_ok fs"
  shows "get_paths ds False
           = map Inr (map (\<lambda>(filename, cls).
                             with_sep (in_dir ds) @ class_names ds ! nat cls @ ''/'' @ filename)
                          (zip (filenames ds) (class_numbers ds))) \<and>
         get_paths ds True
           = map Inr (map (\<lambda>(filename, cls).
                             with_sep (in_dir ds) @ class_names ds ! nat cls @ ''/test/'' @ filename)
                          (zip (filenames_test ds) (class_numbers_test ds))) \<and>
         (\<forall>cls\<in>set (class_numbers ds @ class_numbers_test ds).
            py_index (class_names ds) cls = Inr (class_names ds ! nat cls)) \<and>
         (\<exists>names. listdir fs (in_dir ds) = Inr names \<and>
            class_names ds = filter (\<lambda>name. isdir fs (os_path_join (in_dir ds) [name])) names) \<and>
         in_dir ds = abspath fs d \<and>
         (in_dir ds \<notin> {''/'', ''//''} \<longrightarrow> with_sep (in_dir ds) = in_dir ds @ ''/'')"
proof -
  note gp = get_paths_constructed [OF assms]
  note v = DataSet_init_valid [OF assms(1)]
  have idx: "\<forall>cls\<in>set (class_numbers ds @ class_numbers_test ds).
            py_index (class_names ds) cls = Inr (class_names ds ! nat cls)"
    using v by (auto intro!: py_index_valid)
  from DataSet_init_result [OF assms(1)] obtain names where
    "listdir fs (abspath fs d) = Inr names" "in_dir ds = abspath fs d"
    "class_names ds = class_dirs_in fs (in_dir ds) names"
    by blast
  then have root: "in_dir ds = abspath fs d" and
    names: "\<exists>names. listdir fs (in_dir ds) = Inr names \<and>
            class_names ds = filter (\<lambda>name. isdir fs (os_path_join (in_dir ds) [name])) names"
    by (auto simp: class_dirs_in_def)
  have sep: "in_dir ds \<notin> {''/'', ''//''} \<longrightarrow> with_sep (in_dir ds) = in_dir ds @ ''/''"
    unfolding root using with_sep_abspath [of fs d] by blast
  from gp(1) gp(2) idx names root sep show ?thesis
    by (intro conjI)
qed

theorem get_paths_reconstructed_witness:
  "DataSet_init fs_clouds ''data/clouds-images/'' default_exts = Inr ds_clouds \<and>
   names_ok fs_clouds \<and>
   get_paths ds_clouds False
     = map Inr (map (\<lambda>(filename, cls).
                       with_sep (in_dir ds_clouds) @ class_names ds_clouds ! nat cls @ ''/'' @ filename)
                    (zip (filenames ds_clouds) (class_numbers ds_clouds))) \<and>
   get_paths ds_clouds True
     = map Inr (map (\<lambda>(filename, cls).
                       with_sep (in_dir ds_clouds) @ class_names ds_clouds ! nat cls @ ''/test/''
                         @ filename)
                    (zip (filenames_test ds_clouds) (class_numbers_test ds_clouds))) \<and>
   list_all (\<lambda>cls. py_index (class_names ds_clouds) cls = Inr (class_names ds_clouds ! nat cls))
     (class_numbers ds_clouds @ class_numbers_test ds_clouds) \<and>
   (\<exists>names. listdir fs_clouds (in_dir ds_clouds) = Inr names \<and>
      class_names ds_clouds
        = filter (\<lambda>name. isdir fs_clouds (os_path_join (in_dir ds_clouds) [name])) names) \<and>
   in_dir ds_clouds = abspath fs_clouds ''data/clouds-images/'' \<and>
   in_dir ds_clouds \<notin> {''/'', ''//''} \<and>
   with_sep (in_dir ds_clouds) = in_dir ds_clouds @ ''/''"
proof -
  note h1 = clouds_constructed
  note h2 = clouds_names_ok
  note t = get_paths_reconstructed [OF h1 h2]
  from t have "list_all
     (\<lambda>cls. py_index (class_names ds_clouds) cls = Inr (class_names ds_clouds ! nat cls))
     (class_numbers ds_clouds @ class_numbers_test ds_clouds)"
    by (simp only: Ball_set)
  moreover have h3: "in_dir ds_clouds \<notin> {''/'', ''//''}"
    by (simp add: ds_clouds_def)
  moreover from t h3 have "with_sep (in_dir ds_clouds) = in_dir ds_clouds @ ''/''"
    by blast
  ultimately show ?thesis
    using t h1 h2 by (intro conjI) blast+
qed

lemma clouds_paths:
  "get_paths ds_clouds False
     = [Inr ''/home/u/data/clouds-images/cirrus/c1.jpg'',
        Inr ''/home/u/data/clouds-images/cirrus/C2.JPG'',
        Inr ''/home/u/data/clouds-images/cumulus/k1.jpg'']"
  "get_paths ds_clouds True = [Inr ''/home/u/data/clouds-images/cirrus/test/c3.jpg'']"
  by code_simp+


section \<open>The class count and the largest class number\<close>

lemma Max_below_count:
  fixes S :: "int set"
  assumes "finite S" "S \<noteq> {}" "\<forall>c\<in>S. c < n"
  shows "1 + Max S \<le> n" and "1 + Max S = n \<longleftrightarrow> n - 1 \<in> S"
proof -
  have m: "Max S \<in> S"
    using assms(1,2) by (rule Max_in)
  then show "1 + Max S \<le> n"
    using assms(3) by fastforce
  show "1 + Max S = n \<longleftrightarrow> n - 1 \<in> S"
  proof
    assume "1 + Max S = n"
    then have "n - 1 = Max S" by simp
    with m show "n - 1 \<in> S" by simp
  next
    assume "n - 1 \<in> S"
    then have "n - 1 \<le> Max S"
      using assms(1) by simp
    moreover have "Max S < n"
      using m assms(3) by blast
    ultimately show "1 + Max S = n" by simp
  qed
qed

lemma last_class_numbered:
  assumes "xss \<noteq> []"
  shows "int (length xss) - 1 \<in> set (numbered 0 (map length xss)) \<longleftrightarrow> last xss \<noteq> []"
proof -
  have "nat (int (length xss) - 1) = length xss - 1"
    by simp
  then show ?thesis
    using assms by (simp add: set_numbered last_conv_nth)
qed

text \<open>
  Claim C5, as amended. For a data set made by the constructor that records at least one
  file, the number of class names equals \<^verbatim>\<open>num_classes\<close>, and one plus the largest
  class number of the two splits is at most \<^verbatim>\<open>num_classes\<close>; the two are equal exactly
  when the class discovered last has a file in its directory or in its \<^verbatim>\<open>test\<close>
  sub-directory. The class count is the number of class directories, with or without
  files.
\<close>

theorem num_classes_bounds_class_numbers:
  assumes "DataSet_init fs d e = Inr ds"
    and "class_numbers ds @ class_numbers_test ds \<noteq> []"
  shows "int (length (class_names ds)) = num_classes ds \<and>
         1 + Max (set (class_numbers ds @ class_numbers_test ds)) \<le> num_classes ds \<and>
         (1 + Max (set (class_numbers ds @ class_numbers_test ds)) = num_classes ds \<longleftrightarrow>
            train_files fs (exts ds) (in_dir ds) (last (class_names ds))
              @ test_files fs (exts ds) (in_dir ds) (last (class_names ds)) \<noteq> [])"
proof -
  let ?S = "set (class_numbers ds @ class_numbers_test ds)"
  let ?train = "map (train_files fs (exts ds) (in_dir ds)) (class_names ds)"
  let ?test = "map (test_files fs (exts ds) (in_dir ds)) (class_names ds)"
  note v = DataSet_init_valid [OF assms(1)]
  from DataSet_init_result [OF assms(1)] have
    r: "class_numbers ds = numbered 0 (map length ?train)"
       "class_numbers_test ds = numbered 0 (map length ?test)"
    by blast+
  have fin: "finite ?S" and ne: "?S \<noteq> {}"
    using assms(2) by simp_all
  have lt: "\<forall>c\<in>?S. c < num_classes ds"
    using v by blast
  have "0 < num_classes ds"
    using v assms(2) by (cases "class_numbers ds @ class_numbers_test ds") auto
  then have names: "class_names ds \<noteq> []"
    using v by auto
  have n: "num_classes ds = int (length ?train)" "num_classes ds = int (length ?test)"
    using v by simp_all
  have "num_classes ds - 1 \<in> set (class_numbers ds) \<longleftrightarrow> last ?train \<noteq> []"
    unfolding r(1) n(1) using names by (intro last_class_numbered) simp
  moreover have "num_classes ds - 1 \<in> set (class_numbers_test ds) \<longleftrightarrow> last ?test \<noteq> []"
    unfolding r(2) n(2) using names by (intro last_class_numbered) simp
  ultimately have "num_classes ds - 1 \<in> ?S \<longleftrightarrow>
      train_files fs (exts ds) (in_dir ds) (last (class_names ds))
        @ test_files fs (exts ds) (in_dir ds) (last (class_names ds)) \<noteq> []"
    using names by (simp add: last_map)
  with Max_below_count [OF fin ne lt] v show ?thesis
    by blast
qed

theorem num_classes_bounds_class_numbers_witness:
  "DataSet_init fs_empty_last ''/data'' default_exts = Inr ds_empty_last \<and>
   class_numbers ds_empty_last @ class_numbers_test ds_empty_last \<noteq> [] \<and>
   int (length (class_names ds_empty_last)) = num_classes ds_empty_last \<and>
   1 + Max (set (class_numbers ds_empty_last @ class_numbers_test ds_empty_last))
     \<le> num_classes ds_empty_last \<and>
   (1 + Max (set (class_numbers ds_empty_last @ class_numbers_test ds_empty_last))
      = num_classes ds_empty_last \<longleftrightarrow>
    train_files fs_empty_last (exts ds_empty_last) (in_dir ds_empty_last)
        (last (class_names ds_empty_last))
      @ test_files fs_empty_last (exts ds_empty_last) (in_dir ds_empty_last)
          (last (class_names ds_empty_last)) \<noteq> [])"
proof -
  have h1: "DataSet_init fs_empty_last ''/data'' default_exts = Inr ds_empty_last"
    by code_simp
  have h2: "class_numbers ds_empty_last @ class_numbers_test ds_empty_last \<noteq> []"
    by (simp add: ds_empty_last_def)
  from num_classes_bounds_class_numbers [OF h1 h2] h1 h2 show ?thesis
    by (intro conjI) blast+
qed

text \<open>
  The claim as first stated asks for equality always. With the classes \<^verbatim>\<open>cirrus\<close>
  (one image) and \<^verbatim>\<open>cumulus\<close> (empty), listed in this order, the constructor counts
  two classes while the largest class number is \<open>0\<close>.
\<close>

theorem class_count_counterexample:
  "DataSet_init fs_empty_last ''/data'' default_exts = Inr ds_empty_last \<and>
   filenames ds_empty_last = [''a.jpg''] \<and>
   length (class_names ds_empty_last) = 2 \<and>
   num_classes ds_empty_last = 2 \<and>
   1 + Max (set (class_numbers ds_empty_last) \<union> set (class_numbers_test ds_empty_last)) = 1 \<and>
   num_classes ds_empty_last
     \<noteq> 1 + Max (set (class_numbers ds_empty_last) \<union> set (class_numbers_test ds_empty_last))"
proof -
  have "DataSet_init fs_empty_last ''/data'' default_exts = Inr ds_empty_last"
    by code_simp
  then show ?thesis
    by (simp add: ds_empty_last_def)
qed


section \<open>Missing directories\<close>

lemma get_filenames_missing: "\<not> exists fs dir \<Longrightarrow> get_filenames fs self dir = Inr []"
  by (simp add: get_filenames_def)

lemma init_body_in_dir:
  assumes "init_body fs self name = Inr self'"
  shows "in_dir self' = in_dir self"
proof (cases "isdir fs (os_path_join (in_dir self) [name])")
  case True
  show ?thesis
    by (subst init_body_dir [OF True assms]) simp
next
  case False
  with assms show ?thesis
    by (simp add: init_body_nodir)
qed

lemma init_loop_succeeds_iff:
  "(\<exists>ds. init_loop fs self names = Inr ds) \<longleftrightarrow>
     (\<forall>name\<in>set (class_dirs_in fs (in_dir self) names).
        listable fs (os_path_join (in_dir self) [name]) \<and>
        listable fs (os_path_join (os_path_join (in_dir self) [name]) [''test'']))"
proof (induction names arbitrary: self)
  case Nil
  show ?case by (simp add: class_dirs_in_def)
next
  case (Cons name names)
  let ?cur = "os_path_join (in_dir self) [name]"
  let ?ok = "listable fs ?cur \<and> listable fs (os_path_join ?cur [''test''])"
  show ?case
  proof (cases "isdir fs ?cur")
    case False
    then have d: "class_dirs_in fs (in_dir self) (name # names) = class_dirs_in fs (in_dir self) names"
      by (simp add: class_dirs_in_def)
    show ?thesis
      unfolding d using Cons.IH [of self] False by (simp add: init_body_nodir)
  next
    case True
    then have d: "class_dirs_in fs (in_dir self) (name # names)
                    = name # class_dirs_in fs (in_dir self) names"
      by (simp add: class_dirs_in_def)
    show ?thesis
    proof (cases ?ok)
      case ok: True
      then obtain self' where b: "init_body fs self name = Inr self'"
        using init_body_succeeds [OF True] by blast
      have "in_dir self' = in_dir self"
        by (rule init_body_in_dir [OF b])
      then show ?thesis
        unfolding d using Cons.IH [of self'] ok b by simp
    next
      case bad: False
      then obtain err where "init_body fs self name = Inl err"
        using init_body_fails [OF True] by blast
      then show ?thesis
        unfolding d using bad by auto
    qed
  qed
qed

lemma DataSet_init_succeeds_iff:
  "(\<exists>ds. DataSet_init fs d e = Inr ds) \<longleftrightarrow>
     (\<exists>names. listdir fs (abspath fs d) = Inr names \<and>
        (\<forall>name\<in>set (class_dirs_in fs (abspath fs d) names).
           listable fs (os_path_join (abspath fs d) [name]) \<and>
           listable fs (os_path_join (os_path_join (abspath fs d) [name]) [''test''])))"
proof (cases "listdir fs (abspath fs d)")
  case (Inl err)
  then show ?thesis
    by (simp add: DataSet_init_def)
next
  case (Inr names)
  let ?self = "\<lparr>in_dir = abspath fs d, exts = map lower (iter_exts e), class_names = [],
                 filenames = [], filenames_test = [], class_numbers = [],
                 class_numbers_test = [], num_classes = 0\<rparr>"
  have "DataSet_init fs d e = init_loop fs ?self names"
    using Inr by (simp add: DataSet_init_def)
  then show ?thesis
    using init_loop_succeeds_iff [of fs ?self names] Inr by simp
qed

text \<open>
  Claim C7. The scan of a directory that does not exist returns the empty list and does
  not raise. The constructor succeeds exactly when the root can be listed and every
  class directory, and every \<^verbatim>\<open>test\<close> path below one, can be listed if it exists: a
  \<^verbatim>\<open>test\<close> path that does not exist never makes it fail. In the data set built, a
  class whose \<^verbatim>\<open>test\<close> path does not exist has no test file: its class number does not
  occur among the class numbers of the test set.
\<close>

theorem missing_test_directory_is_empty:
  "(\<not> exists fs dir \<longrightarrow> get_filenames fs self dir = Inr []) \<and>
   ((\<exists>ds. DataSet_init fs d e = Inr ds) \<longleftrightarrow>
      (\<exists>names. listdir fs (abspath fs d) = Inr names \<and>
         (\<forall>name\<in>set (class_dirs_in fs (abspath fs d) names).
            listable fs (os_path_join (abspath fs d) [name]) \<and>
            listable fs (os_path_join (os_path_join (abspath fs d) [name]) [''test''])))) \<and>
   (DataSet_init fs d e = Inr ds' \<longrightarrow>
      (\<forall>c<length (class_names ds').
         \<not> exists fs (os_path_join (os_path_join (in_dir ds') [class_names ds' ! c]) [''test'']) \<longrightarrow>
         test_files fs (exts ds') (in_dir ds') (class_names ds' ! c) = [] \<and>
         int c \<notin> set (class_numbers_test ds')))"
proof (intro conjI impI allI)
  assume "\<not> exists fs dir"
  then show "get_filenames fs self dir = Inr []"
    by (rule get_filenames_missing)
next
  show "(\<exists>ds. DataSet_init fs d e = Inr ds) \<longleftrightarrow>
      (\<exists>names. listdir fs (abspath fs d) = Inr names \<and>
         (\<forall>name\<in>set (class_dirs_in fs (abspath fs d) names).
            listable fs (os_path_join (abspath fs d) [name]) \<and>
            listable fs (os_path_join (os_path_join (abspath fs d) [name]) [''test''])))"
    by (rule DataSet_init_succeeds_iff)
next
  fix c
  assume init: "DataSet_init fs d e = Inr ds'" and c: "c < length (class_names ds')"
    and miss: "\<not> exists fs (os_path_join (os_path_join (in_dir ds') [class_names ds' ! c]) [''test''])"
  from DataSet_init_result [OF init] have
    r: "class_numbers_test ds'
          = numbered 0 (map length (map (test_files fs (exts ds') (in_dir ds')) (class_names ds')))"
    by blast
  show e: "test_files fs (exts ds') (in_dir ds') (class_names ds' ! c) = []"
    using miss by (simp add: test_files_def scan_missing)
  show "int c \<notin> set (class_numbers_test ds')"
    unfolding r using c e by (simp add: set_numbered)
qed

theorem missing_test_directory_is_empty_witness:
  "\<not> exists fs_clouds ''/home/u/data/clouds-images/cumulus/test'' \<and>
   get_filenames fs_clouds ds_clouds ''/home/u/data/clouds-images/cumulus/test'' = Inr [] \<and>
   DataSet_init fs_clouds ''data/clouds-images/'' default_exts = Inr ds_clouds \<and>
   (\<exists>names. listdir fs_clouds (abspath fs_clouds ''data/clouds-images/'') = Inr names \<and>
      (\<forall>name\<in>set (class_dirs_in fs_clouds (abspath fs_clouds ''data/clouds-images/'') names).
         listable fs_clouds (os_path_join (abspath fs_clouds ''data/clouds-images/'') [name]) \<and>
         listable fs_clouds
           (os_path_join (os_path_join (abspath fs_clouds ''data/clouds-images/'') [name])
              [''test'']))) \<and>
   1 < length (class_names ds_clouds) \<and>
   class_names ds_clouds ! 1 = ''cumulus'' \<and>
   \<not> exists fs_clouds
       (os_path_join (os_path_join (in_dir ds_clouds) [class_names ds_clouds ! 1]) [''test'']) \<and>
   test_files fs_clouds (exts ds_clouds) (in_dir ds_clouds) (class_names ds_clouds ! 1) = [] \<and>
   int 1 \<notin> set (class_numbers_test ds_clouds)"
proof -
  note t = missing_test_directory_is_empty
    [of fs_clouds "''/home/u/data/clouds-images/cumulus/test''" ds_clouds
        "''data/clouds-images/''" default_exts ds_clouds]
  have h1: "\<not> exists fs_clouds ''/home/u/data/clouds-images/cumulus/test''"
    by (simp add: fs_clouds_def clouds_dirs_def clouds_files_def)
  note h2 = clouds_constructed
  have h3: "1 < length (class_names ds_clouds)" "class_names ds_clouds ! 1 = ''cumulus''"
    by (simp_all add: ds_clouds_def)
  have h4: "\<not> exists fs_clouds
       (os_path_join (os_path_join (in_dir ds_clouds) [class_names ds_clouds ! 1]) [''test''])"
    by code_simp
  from t h1 have c1: "get_filenames fs_clouds ds_clouds ''/home/u/data/clouds-images/cumulus/test'' = Inr []"
    by blast
  from t h2 have c2: "\<exists>names. listdir fs_clouds (abspath fs_clouds ''data/clouds-images/'') = Inr names \<and>
      (\<forall>name\<in>set (class_dirs_in fs_clouds (abspath fs_clouds ''data/clouds-images/'') names).
         listable fs_clouds (os_path_join (abspath fs_clouds ''data/clouds-images/'') [name]) \<and>
         listable fs_clouds
           (os_path_join (os_path_join (abspath fs_clouds ''data/clouds-images/'') [name])
              [''test'']))"
    by blast
  from t h2 h3(1) h4 have c3:
    "test_files fs_clouds (exts ds_clouds) (in_dir ds_clouds) (class_names ds_clouds ! 1) = [] \<and>
     int 1 \<notin> set (class_numbers_test ds_clouds)"
    by blast
  from h1 c1 h2 c2 h3 h4 c3 show ?thesis
    by (intro conjI) blast+
qed


section \<open>What the scan keeps\<close>

lemma get_filenames_listed:
  "exists fs dir \<Longrightarrow> listdir fs dir = Inr entries \<Longrightarrow>
     get_filenames fs self dir
       = Inr (filter (\<lambda>filename. endswith (lower filename) (exts self)) entries)"
  by (simp add: get_filenames_def)

lemma get_filenames_ignores_isdir:
  "get_filenames (fs\<lparr>isdir := any\<rparr>) self dir = get_filenames fs self dir"
  by (simp add: get_filenames_def)

lemma DataSet_init_records_entry:
  assumes init: "DataSet_init fs d e = Inr ds"
    and c: "c < length (class_names ds)"
    and ex: "exists fs (os_path_join (in_dir ds) [class_names ds ! c])"
    and ls: "listdir fs (os_path_join (in_dir ds) [class_names ds ! c]) = Inr entries"
    and x: "x \<in> set entries" "endswith (lower x) (exts ds)"
  shows "\<exists>i<length (filenames ds). filenames ds ! i = x \<and> class_numbers ds ! i = int c"
proof -
  let ?xss = "map (train_files fs (exts ds) (in_dir ds)) (class_names ds)"
  from DataSet_init_result [OF init] have
    r: "filenames ds = concat ?xss" "class_numbers ds = numbered 0 (map length ?xss)"
    by blast+
  have "x \<in> set (train_files fs (exts ds) (in_dir ds) (class_names ds ! c))"
    using x by (simp add: train_files_def scan_listed [OF ex ls])
  then have m: "x \<in> set (?xss ! c)"
    using c by simp
  have l: "c < length ?xss"
    using c by simp
  from numbered_concat_member [OF l m, of 0] show ?thesis
    unfolding r by simp
qed

text \<open>
  Claim C10. The scan of an existing directory returns, in listing order, every entry
  whose lower-cased name ends with one of the accepted extensions. The kind of the
  entry is never looked at: the result is the same whatever \<^verbatim>\<open>os.path.isdir\<close> answers.
  So an entry of a class directory that is itself a directory and whose name ends with
  an accepted extension is recorded among the file names, with the number of that class.
\<close>

theorem scan_does_not_check_file_type:
  "(exists fs dir \<and> listdir fs dir = Inr entries \<longrightarrow>
      get_filenames fs self dir
        = Inr (filter (\<lambda>filename. endswith (lower filename) (exts self)) entries)) \<and>
   get_filenames (fs\<lparr>isdir := any\<rparr>) self dir = get_filenames fs self dir \<and>
   (DataSet_init fs d e = Inr ds \<and> c < length (class_names ds) \<and>
    exists fs (os_path_join (in_dir ds) [class_names ds ! c]) \<and>
    listdir fs (os_path_join (in_dir ds) [class_names ds ! c]) = Inr class_entries \<and>
    x \<in> set class_entries \<and> endswith (lower x) (exts ds) \<and>
    isdir fs (os_path_join (os_path_join (in_dir ds) [class_names ds ! c]) [x]) \<longrightarrow>
      (\<exists>i<length (filenames ds). filenames ds ! i = x \<and> class_numbers ds ! i = int c))"
proof (intro conjI impI)
  assume "exists fs dir \<and> listdir fs dir = Inr entries"
  then show "get_filenames fs self dir
        = Inr (filter (\<lambda>filename. endswith (lower filename) (exts self)) entries)"
    by (simp add: get_filenames_listed)
next
  show "get_filenames (fs\<lparr>isdir := any\<rparr>) self dir = get_filenames fs self dir"
    by (rule get_filenames_ignores_isdir)
next
  assume a: "DataSet_init fs d e = Inr ds \<and> c < length (class_names ds) \<and>
    exists fs (os_path_join (in_dir ds) [class_names ds ! c]) \<and>
    listdir fs (os_path_join (in_dir ds) [class_names ds ! c]) = Inr class_entries \<and>
    x \<in> set class_entries \<and> endswith (lower x) (exts ds) \<and>
    isdir fs (os_path_join (os_path_join (in_dir ds) [class_names ds ! c]) [x])"
  then show "\<exists>i<length (filenames ds). filenames ds ! i = x \<and> class_numbers ds ! i = int c"
    by (intro DataSet_init_records_entry [of fs d e ds c class_entries x]) simp_all
qed

theorem scan_does_not_check_file_type_witness:
  "exists fs_subdir ''/data/cirrus'' \<and>
   listdir fs_subdir ''/data/cirrus'' = Inr [''a.jpg'', ''x.jpg''] \<and>
   get_filenames fs_subdir ds_subdir ''/data/cirrus''
     = Inr (filter (\<lambda>filename. endswith (lower filename) (exts ds_subdir)) [''a.jpg'', ''x.jpg'']) \<and>
   DataSet_init fs_subdir ''/data'' (Tuple [''.JPG'']) = Inr ds_subdir \<and>
   0 < length (class_names ds_subdir) \<and>
   exists fs_subdir (os_path_join (in_dir ds_subdir) [class_names ds_subdir ! 0]) \<and>
   listdir fs_subdir (os_path_join (in_dir ds_subdir) [class_names ds_subdir ! 0])
     = Inr [''a.jpg'', ''x.jpg''] \<and>
   ''x.jpg'' \<in> set [''a.jpg'', ''x.jpg''] \<and>
   endswith (lower ''x.jpg'') (exts ds_subdir) \<and>
   isdir fs_subdir
     (os_path_join (os_path_join (in_dir ds_subdir) [class_names ds_subdir ! 0]) [''x.jpg'']) \<and>
   (\<exists>i<length (filenames ds_subdir).
      filenames ds_subdir ! i = ''x.jpg'' \<and> class_numbers ds_subdir ! i = int 0)"
proof -
  note t = scan_does_not_check_file_type
    [where fs = fs_subdir and dir = "''/data/cirrus''" and entries = "[''a.jpg'', ''x.jpg'']"
       and self = ds_subdir and d = "''/data''" and e = "Tuple [''.JPG'']" and ds = ds_subdir
       and c = 0 and class_entries = "[''a.jpg'', ''x.jpg'']" and x = "''x.jpg''"]
  have h1: "exists fs_subdir ''/data/cirrus''"
    "listdir fs_subdir ''/data/cirrus'' = Inr [''a.jpg'', ''x.jpg'']"
    by (simp_all add: fs_subdir_def)
  have h2: "DataSet_init fs_subdir ''/data'' (Tuple [''.JPG'']) = Inr ds_subdir"
    by code_simp
  have h3: "0 < length (class_names ds_subdir)"
    by (simp add: ds_subdir_def)
  have h4: "exists fs_subdir (os_path_join (in_dir ds_subdir) [class_names ds_subdir ! 0])"
    by code_simp
  have h5: "listdir fs_subdir (os_path_join (in_dir ds_subdir) [class_names ds_subdir ! 0])
     = Inr [''a.jpg'', ''x.jpg'']"
    by code_simp
  have h6: "''x.jpg'' \<in> set [''a.jpg'', ''x.jpg'']"
    by simp
  have h7: "endswith (lower ''x.jpg'') (exts ds_subdir)"
    by code_simp
  have h8: "isdir fs_subdir
     (os_path_join (os_path_join (in_dir ds_subdir) [class_names ds_subdir ! 0]) [''x.jpg''])"
    by code_simp
  from t h1 have c1: "get_filenames fs_subdir ds_subdir ''/data/cirrus''
     = Inr (filter (\<lambda>filename. endswith (lower filename) (exts ds_subdir)) [''a.jpg'', ''x.jpg''])"
    by blast
  from t h2 h3 h4 h5 h6 h7 h8 have c2: "\<exists>i<length (filenames ds_subdir).
      filenames ds_subdir ! i = ''x.jpg'' \<and> class_numbers ds_subdir ! i = int 0"
    by blast
  from h1 c1 h2 h3 h4 h5 h6 h7 h8 c2 show ?thesis
    by (intro conjI)
qed


section \<open>The default extensions\<close>

text \<open>With the default argument, a name is kept exactly when it ends in one of the four
  characters of \<^verbatim>\<open>.jpg\<close>, whatever the case.\<close>

lemma endswith1_char: "endswith1 s [c] \<longleftrightarrow> s \<noteq> [] \<and> last s = c"
  by (cases s rule: rev_cases) (simp_all add: endswith1_def)

lemma default_exts_suffixes:
  "endswith (lower name) (map lower (iter_exts default_exts)) \<longleftrightarrow>
     name \<noteq> [] \<and> lower_char (last name) \<in> set ''.jpg''"
proof -
  have e: "map lower (iter_exts default_exts) = [''.'', ''j'', ''p'', ''g'']"
    by code_simp
  show ?thesis
    unfolding e by (auto simp: endswith_def endswith1_char lower_def last_map)
qed

text \<open>
  Claim C4 says that with the default argument \<^verbatim>\<open>exts='.jpg'\<close> a data set accepts the
  files whose extension is \<^verbatim>\<open>.jpg\<close> and no others. The constructor iterates over the
  string, so the accepted suffixes are its four characters, and every name that ends in
  a dot, \<^verbatim>\<open>j\<close>, \<^verbatim>\<open>p\<close> or \<^verbatim>\<open>g\<close> is kept: here \<^verbatim>\<open>notes.png\<close>, \<^verbatim>\<open>catalog\<close> and
  \<^verbatim>\<open>backup.zip\<close> next to \<^verbatim>\<open>a.jpg\<close>.
\<close>

theorem default_exts_accepts_other_files:
  "DataSet_init fs_mixed ''/data'' default_exts = Inr ds_mixed \<and>
   exts ds_mixed = [''.'', ''j'', ''p'', ''g''] \<and>
   filenames ds_mixed = [''a.jpg'', ''notes.png'', ''catalog'', ''backup.zip'']"
proof -
  have "DataSet_init fs_mixed ''/data'' default_exts = Inr ds_mixed"
    by code_simp
  then show ?thesis
    by (simp add: ds_mixed_def)
qed

text \<open>A tuple with the one member \<^verbatim>\<open>.jpg\<close> keeps the image alone.\<close>

lemma tuple_exts_accepts_jpg_only:
  "DataSet_init fs_mixed ''/data'' (Tuple [''.jpg''])
     = Inr (ds_mixed\<lparr>exts := [''.jpg''], filenames := [''a.jpg''], class_numbers := [0]\<rparr>)"
  by code_simp

section \<open>Loading through the cache\<close>

lemma cache_hit:
  "persisted cache_path = Some (Stored obj) \<Longrightarrow>
     cache cache_path fn persisted failing = (Inr obj, persisted, [])"
  by (simp add: cache_def Let_def)

lemma cache_miss:
  assumes "\<forall>obj. persisted cache_path \<noteq> Some (Stored obj)"
  shows "cache cache_path fn persisted failing =
     (case fn () of
        Inl e \<Rightarrow> (Inl e, persisted, [])
      | Inr obj \<Rightarrow>
         (if failing cache_path then (Inr obj, persisted, [CacheWriteFailed cache_path])
          else (Inr obj, persisted(cache_path \<mapsto> Stored obj), [])))"
proof (cases "persisted cache_path")
  case None
  then show ?thesis
    by (simp add: cache_def Let_def)
next
  case (Some content)
  with assms have "content = Corrupt"
    by (cases content) simp_all
  with Some show ?thesis
    by (simp add: cache_def Let_def)
qed

lemma cache_stores:
  assumes "cache cache_path fn persisted failing = (Inr obj, persisted', reported)"
    and "\<not> failing cache_path \<or> (\<exists>old. persisted cache_path = Some (Stored old))"
  shows "persisted' cache_path = Some (Stored obj)"
proof (cases "\<exists>old. persisted cache_path = Some (Stored old)")
  case True
  then obtain old where old: "persisted cache_path = Some (Stored old)"
    by blast
  from assms(1) show ?thesis
    unfolding cache_hit [of persisted cache_path old, OF old] using old by simp
next
  case False
  then have miss: "\<forall>old. persisted cache_path \<noteq> Some (Stored old)"
    by blast
  from False assms(2) have "\<not> failing cache_path"
    by blast
  with assms(1) show ?thesis
    unfolding cache_miss [of persisted cache_path, OF miss] by (cases "fn ()") auto
qed

lemma load_cached_unfold:
  "load_cached fs cache_path dir w =
     (case cache cache_path (\<lambda>_. DataSet_init fs dir default_exts) (cache_files w) (write_fails w) of
        (dataset, persisted, reported) \<Rightarrow>
          (dataset,
           w\<lparr>stdout := stdout w @ [''Creating dataset from the files in: '' @ dir],
             cache_files := persisted,
             reports := reports w @ reported\<rparr>))"
  by (simp add: load_cached_def Let_def)

lemma load_cached_hit:
  assumes "cache_files w cache_path = Some (Stored obj)"
  shows "fst (load_cached fs cache_path dir w) = Inr obj"
    and "cache_files (snd (load_cached fs cache_path dir w)) = cache_files w"
    and "write_fails (snd (load_cached fs cache_path dir w)) = write_fails w"
  by (simp_all add: load_cached_unfold cache_hit [of "cache_files w" cache_path obj, OF assms])

lemma load_cached_stores:
  assumes "load_cached fs cache_path dir w = (Inr ds, w')"
    and "\<not> write_fails w cache_path \<or> (\<exists>old. cache_files w cache_path = Some (Stored old))"
  shows "cache_files w' cache_path = Some (Stored ds)"
proof -
  obtain r p reported where
    c: "cache cache_path (\<lambda>_. DataSet_init fs dir default_exts) (cache_files w) (write_fails w)
          = (r, p, reported)"
    by (metis prod_cases3)
  with assms(1) have "r = Inr ds" "cache_files w' = p"
    by (auto simp: load_cached_unfold)
  with c cache_stores [of cache_path _ "cache_files w" "write_fails w" ds p reported]
    assms(2) show ?thesis
    by blast
qed

lemma load_cached_unwritable:
  assumes "\<forall>obj. cache_files w cache_path \<noteq> Some (Stored obj)" and "write_fails w cache_path"
  shows "fst (load_cached fs cache_path dir w) = DataSet_init fs dir default_exts"
    and "cache_files (snd (load_cached fs cache_path dir w)) = cache_files w"
    and "write_fails (snd (load_cached fs cache_path dir w)) = write_fails w"
  using assms(2)
  by (cases "DataSet_init fs dir default_exts";
      simp add: load_cached_unfold cache_miss [of "cache_files w" cache_path, OF assms(1)])+

text \<open>
  Claim C1, as amended. If a call of \<^verbatim>\<open>load_cached\<close> returns a data set and the cache
  file could be written (or held a data set already), then the data set is persisted,
  and a second call with the same cache path and directory returns the same data set,
  hence the same paths, class numbers and one-hot labels of both splits, whatever the
  file system answers at the time of the second call. On a cache hit the persisted data
  set is returned as it is and the persisted files are unchanged; the build function is
  not called: the result is the same for every build function, also for one that raises.
  Where the cache holds no data set and the write fails, the call returns what the scan
  gives and persists nothing, so the next call scans again.
\<close>

theorem load_cached_twice:
  "(load_cached fs cache_path dir w = (Inr ds, w') \<and>
    (\<not> write_fails w cache_path \<or> (\<exists>old. cache_files w cache_path = Some (Stored old))) \<longrightarrow>
      cache_files w' cache_path = Some (Stored ds) \<and>
      (\<exists>ds2 w2. load_cached fs' cache_path dir w' = (Inr ds2, w2) \<and>
         ds2 = ds \<and>
         get_training_set ds2 = get_training_set ds \<and>
         get_test_set ds2 = get_test_set ds \<and>
         cache_files w2 = cache_files w')) \<and>
   (cache_files w cache_path = Some (Stored obj) \<longrightarrow>
      fst (load_cached fs cache_path dir w) = Inr obj \<and>
      cache_files (snd (load_cached fs cache_path dir w)) = cache_files w \<and>
      (\<forall>fn failing. cache cache_path fn (cache_files w) failing = (Inr obj, cache_files w, []))) \<and>
   ((\<forall>old. cache_files w cache_path \<noteq> Some (Stored old)) \<and> write_fails w cache_path \<longrightarrow>
      fst (load_cached fs cache_path dir w) = DataSet_init fs dir default_exts \<and>
      cache_files (snd (load_cached fs cache_path dir w)) = cache_files w \<and>
      write_fails (snd (load_cached fs cache_path dir w)) = write_fails w)"
proof (intro conjI impI)
  assume a: "load_cached fs cache_path dir w = (Inr ds, w') \<and>
    (\<not> write_fails w cache_path \<or> (\<exists>old. cache_files w cache_path = Some (Stored old)))"
  then show s: "cache_files w' cache_path = Some (Stored ds)"
    by (intro load_cached_stores [of fs cache_path dir w ds w']) simp_all
  obtain r w2 where second: "load_cached fs' cache_path dir w' = (r, w2)"
    by (cases "load_cached fs' cache_path dir w'")
  with load_cached_hit [OF s, of fs' dir] have "r = Inr ds" "cache_files w2 = cache_files w'"
    by simp_all
  with second show "\<exists>ds2 w2. load_cached fs' cache_path dir w' = (Inr ds2, w2) \<and>
         ds2 = ds \<and>
         get_training_set ds2 = get_training_set ds \<and>
         get_test_set ds2 = get_test_set ds \<and>
         cache_files w2 = cache_files w'"
    by simp
next
  assume h: "cache_files w cache_path = Some (Stored obj)"
  show "fst (load_cached fs cache_path dir w) = Inr obj"
    by (rule load_cached_hit [OF h])
  show "cache_files (snd (load_cached fs cache_path dir w)) = cache_files w"
    by (rule load_cached_hit [OF h])
  show "\<forall>fn failing. cache cache_path fn (cache_files w) failing = (Inr obj, cache_files w, [])"
    using cache_hit [of "cache_files w" cache_path obj, OF h] by blast
next
  assume u: "(\<forall>old. cache_files w cache_path \<noteq> Some (Stored old)) \<and> write_fails w cache_path"
  then have u1: "\<forall>old. cache_files w cache_path \<noteq> Some (Stored old)"
    and u2: "write_fails w cache_path"
    by simp_all
  show "fst (load_cached fs cache_path dir w) = DataSet_init fs dir default_exts"
    by (rule load_cached_unwritable [OF u1 u2])
  show "cache_files (snd (load_cached fs cache_path dir w)) = cache_files w"
    by (rule load_cached_unwritable [OF u1 u2])
  show "write_fails (snd (load_cached fs cache_path dir w)) = write_fails w"
    by (rule load_cached_unwritable [OF u1 u2])
qed

text \<open>
  The scenario: the first call scans the tree and persists the data set; at the second
  call the root is listed in another order, a fresh scan would number the classes the
  other way round, and the cached data set is returned.
\<close>

lemma clouds_first_call:
  "load_cached fs_clouds ''data/clouds-images/clouds-images.pkl'' ''data/clouds-images/'' world_fresh
     = (Inr ds_clouds, world_cached)"
  by (simp add: load_cached_unfold cache_def world_fresh_def world_cached_def clouds_constructed)

lemma clouds_later_rescan:
  "DataSet_init fs_clouds_later ''data/clouds-images/'' default_exts = Inr ds_clouds_later"
  by code_simp

lemma clouds_later_training_set:
  "get_training_set ds_clouds_later
     = Inr ([''/home/u/data/clouds-images/cumulus/k1.jpg'',
             ''/home/u/data/clouds-images/cirrus/c1.jpg'',
             ''/home/u/data/clouds-images/cirrus/C2.JPG''],
            [0, 1, 1],
            [[1, 0], [0, 1], [0, 1]])"
  by code_simp

theorem load_cached_twice_witness:
  "load_cached fs_clouds ''data/clouds-images/clouds-images.pkl'' ''data/clouds-images/'' world_fresh
     = (Inr ds_clouds, world_cached) \<and>
   \<not> write_fails world_fresh ''data/clouds-images/clouds-images.pkl'' \<and>
   cache_files world_cached ''data/clouds-images/clouds-images.pkl'' = Some (Stored ds_clouds) \<and>
   (\<exists>ds2 w2.
      load_cached fs_clouds_later ''data/clouds-images/clouds-images.pkl'' ''data/clouds-images/''
        world_cached = (Inr ds2, w2) \<and>
      ds2 = ds_clouds \<and>
      get_training_set ds2 = get_training_set ds_clouds \<and>
      get_test_set ds2 = get_test_set ds_clouds \<and>
      cache_files w2 = cache_files world_cached) \<and>
   fst (load_cached fs_clouds_later ''data/clouds-images/clouds-images.pkl''
          ''data/clouds-images/'' world_cached) = Inr ds_clouds \<and>
   write_fails world_unwritable ''data/clouds-images/clouds-images.pkl'' \<and>
   fst (load_cached fs_clouds_later ''data/clouds-images/clouds-images.pkl''
          ''data/clouds-images/'' world_unwritable)
     = DataSet_init fs_clouds_later ''data/clouds-images/'' default_exts \<and>
   cache_files (snd (load_cached fs_clouds_later ''data/clouds-images/clouds-images.pkl''
                       ''data/clouds-images/'' world_unwritable))
     = cache_files world_unwritable"
proof -
  note h1 = clouds_first_call
  have h2: "\<not> write_fails world_fresh ''data/clouds-images/clouds-images.pkl''"
    by (simp add: world_fresh_def)
  have h3: "write_fails world_unwritable ''data/clouds-images/clouds-images.pkl''"
    by (simp add: world_unwritable_def)
  have h4: "\<forall>old. cache_files world_unwritable ''data/clouds-images/clouds-images.pkl''
              \<noteq> Some (Stored old)"
    by (simp add: world_unwritable_def)
  note t = load_cached_twice
    [where fs = fs_clouds and cache_path = "''data/clouds-images/clouds-images.pkl''"
       and dir = "''data/clouds-images/''" and w = world_fresh and ds = ds_clouds
       and w' = world_cached and fs' = fs_clouds_later]
  from t h1 h2 have c1: "cache_files world_cached ''data/clouds-images/clouds-images.pkl''
       = Some (Stored ds_clouds) \<and>
    (\<exists>ds2 w2.
      load_cached fs_clouds_later ''data/clouds-images/clouds-images.pkl'' ''data/clouds-images/''
        world_cached = (Inr ds2, w2) \<and>
      ds2 = ds_clouds \<and>
      get_training_set ds2 = get_training_set ds_clouds \<and>
      get_test_set ds2 = get_test_set ds_clouds \<and>
      cache_files w2 = cache_files world_cached)"
    by blast
  note t2 = load_cached_twice
    [where fs = fs_clouds_later and cache_path = "''data/clouds-images/clouds-images.pkl''"
       and dir = "''data/clouds-images/''" and w = world_cached and obj = ds_clouds]
  from t2 c1 have c2: "fst (load_cached fs_clouds_later ''data/clouds-images/clouds-images.pkl''
          ''data/clouds-images/'' world_cached) = Inr ds_clouds"
    by blast
  note t3 = load_cached_twice
    [where fs = fs_clouds_later and cache_path = "''data/clouds-images/clouds-images.pkl''"
       and dir = "''data/clouds-images/''" and w = world_unwritable]
  from t3 h3 h4 have c3:
    "fst (load_cached fs_clouds_later ''data/clouds-images/clouds-images.pkl''
            ''data/clouds-images/'' world_unwritable)
       = DataSet_init fs_clouds_later ''data/clouds-images/'' default_exts \<and>
     cache_files (snd (load_cached fs_clouds_later ''data/clouds-images/clouds-images.pkl''
                         ''data/clouds-images/'' world_unwritable))
       = cache_files world_unwritable"
    by blast
  from h1 h2 c1 c2 h3 c3 show ?thesis
    by (intro conjI) blast+
qed

text \<open>
  The claim as first stated holds for every pair of calls. On a disk that cannot be
  written the first call returns the data set of its scan and persists nothing; at the
  second call the same tree is listed in another order, the scan is made again and the
  paths and class numbers returned differ from those of the first call.
\<close>

theorem load_cached_unwritable_counterexample:
  "load_cached fs_clouds ''data/clouds-images/clouds-images.pkl'' ''data/clouds-images/''
       world_unwritable
     = (Inr ds_clouds, world_unwritable_after) \<and>
   fst (load_cached fs_clouds_later ''data/clouds-images/clouds-images.pkl''
          ''data/clouds-images/'' world_unwritable_after) = Inr ds_clouds_later \<and>
   get_training_set ds_clouds
     = Inr ([''/home/u/data/clouds-images/cirrus/c1.jpg'',
             ''/home/u/data/clouds-images/cirrus/C2.JPG'',
             ''/home/u/data/clouds-images/cumulus/k1.jpg''],
            [0, 0, 1],
            [[1, 0], [1, 0], [0, 1]]) \<and>
   get_training_set ds_clouds_later
     = Inr ([''/home/u/data/clouds-images/cumulus/k1.jpg'',
             ''/home/u/data/clouds-images/cirrus/c1.jpg'',
             ''/home/u/data/clouds-images/cirrus/C2.JPG''],
            [0, 1, 1],
            [[1, 0], [0, 1], [0, 1]]) \<and>
   get_training_set ds_clouds_later \<noteq> get_training_set ds_clouds"
proof -
  have first: "load_cached fs_clouds ''data/clouds-images/clouds-images.pkl''
      ''data/clouds-images/'' world_unwritable = (Inr ds_clouds, world_unwritable_after)"
    by (simp add: load_cached_unfold cache_def world_unwritable_def world_unwritable_after_def
        clouds_constructed)
  have second: "fst (load_cached fs_clouds_later ''data/clouds-images/clouds-images.pkl''
      ''data/clouds-images/'' world_unwritable_after) = Inr ds_clouds_later"
    by (simp add: load_cached_unfold cache_def world_unwritable_after_def clouds_later_rescan)
  have differ: "get_training_set ds_clouds_later \<noteq> get_training_set ds_clouds"
    by (simp add: clouds_training_set clouds_later_training_set)
  from first second clouds_training_set clouds_later_training_set differ show ?thesis
    by (intro conjI)
qed

section \<open>Failures during the export\<close>

lemma copy_loop_append:
  "copy_loop os class_dirs (xs @ ys) w =
     (case copy_loop os class_dirs xs w of
        (w1, None) \<Rightarrow> copy_loop os class_dirs ys w1
      | (w1, Some e) \<Rightarrow> (w1, Some e))"
proof (induction os class_dirs xs w rule: copy_loop.induct)
  case (1 os class_dirs w)
  show ?case by simp
next
  case (2 os class_dirs e cls rest w)
  show ?case by simp
next
  case (3 os class_dirs src cls rest w)
  show ?case
  proof (cases "py_index class_dirs cls")
    case (Inl e)
    then show ?thesis by simp
  next
    case (Inr dst)
    obtain w' r where c: "copy os w src dst = (w', r)"
      by (cases "copy os w src dst")
    show ?thesis
    proof (cases r)
      case None
      with 3 [OF Inr c [symmetric]] Inr c show ?thesis
        by simp
    next
      case (Some e)
      with Inr c show ?thesis
        by simp
    qed
  qed
qed

lemma copy_loop_failure:
  assumes "copy_loop os class_dirs before w = (w1, None)"
    and "py_index class_dirs cls = Inr dst"
    and "copy os w1 src dst = (w2, Some err)"
  shows "copy_loop os class_dirs (before @ (Inr src, cls) # rest) w = (w2, Some err)"
  using assms by (simp add: copy_loop_append)

lemma copy_files_helper_unfold:
  "copy_files_helper os self src_paths dst_dir cnumbers w =
     (case makedirs_loop os (class_dirs_for self dst_dir) w of
        (w', Some e) \<Rightarrow> (w', Some e)
      | (w', None) \<Rightarrow> copy_loop os (class_dirs_for self dst_dir) (zip src_paths cnumbers) w')"
  by (simp add: copy_files_helper_def class_dirs_for_def Let_def split: prod.split option.split)

lemma copy_files_helper_failure:
  assumes "makedirs_loop os (class_dirs_for self dst_dir) w = (w0, None)"
    and "zip src_paths cnumbers = before @ (Inr src, cls) # rest"
    and "copy_loop os (class_dirs_for self dst_dir) before w0 = (w1, None)"
    and "py_index (class_dirs_for self dst_dir) cls = Inr dst"
    and "copy os w1 src dst = (w2, Some err)"
  shows "copy_files_helper os self src_paths dst_dir cnumbers w = (w2, Some err)"
  by (simp add: copy_files_helper_unfold assms(1) assms(2)
      copy_loop_failure [OF assms(3) assms(4) assms(5)])

lemma copy_files_training_failure:
  assumes "copy_files_helper os self (get_paths self False) train_dir (class_numbers self) w
             = (w3, Some err)"
  shows "copy_files os self train_dir test_dir w = (w3, Some err)"
  using assms by (simp add: copy_files_def)

lemma copy_files_test_failure:
  assumes "copy_files_helper os self (get_paths self False) train_dir (class_numbers self) w
             = (v, None)"
    and "copy_files_helper os self (get_paths self True) test_dir (class_numbers_test self)
           (print os v (''- Copied training-set to: '' @ train_dir)) = (v2, Some err)"
  shows "copy_files os self train_dir test_dir w = (v2, Some err)"
  using assms by (simp add: copy_files_def Let_def)

text \<open>
  Claim C9, as amended. During the export the files are copied one after another and
  no exception is caught. In the training set: when the class directories have been
  made, the copies of the files before some file have succeeded and the copy of this
  file fails, \<^verbatim>\<open>copy_files\<close> ends with that one exception, in the world the failed copy
  left, whatever files remain: no later file of the training set and no file of the test
  set is attempted. In the test set, after the training set has been exported, the same
  holds: the first copy that fails ends \<^verbatim>\<open>copy_files\<close> with its exception. No list of
  failures is collected.
\<close>

theorem copy_files_stops_at_first_failure:
  "(makedirs_loop os (class_dirs_for self train_dir) w = (w0, None) \<and>
    zip (get_paths self False) (class_numbers self) = before @ (Inr src, cls) # rest \<and>
    copy_loop os (class_dirs_for self train_dir) before w0 = (w1, None) \<and>
    py_index (class_dirs_for self train_dir) cls = Inr dst \<and>
    copy os w1 src dst = (w2, Some err) \<longrightarrow>
      copy_files os self train_dir test_dir w = (w2, Some err)) \<and>
   (copy_files_helper os self (get_paths self False) train_dir (class_numbers self) w
      = (v, None) \<and>
    makedirs_loop os (class_dirs_for self test_dir)
      (print os v (''- Copied training-set to: '' @ train_dir)) = (v0, None) \<and>
    zip (get_paths self True) (class_numbers_test self) = before' @ (Inr src', cls') # rest' \<and>
    copy_loop os (class_dirs_for self test_dir) before' v0 = (v1, None) \<and>
    py_index (class_dirs_for self test_dir) cls' = Inr dst' \<and>
    copy os v1 src' dst' = (v2, Some err') \<longrightarrow>
      copy_files os self train_dir test_dir w = (v2, Some err'))"
proof (intro conjI impI)
  assume a: "makedirs_loop os (class_dirs_for self train_dir) w = (w0, None) \<and>
    zip (get_paths self False) (class_numbers self) = before @ (Inr src, cls) # rest \<and>
    copy_loop os (class_dirs_for self train_dir) before w0 = (w1, None) \<and>
    py_index (class_dirs_for self train_dir) cls = Inr dst \<and>
    copy os w1 src dst = (w2, Some err)"
  then have a1: "makedirs_loop os (class_dirs_for self train_dir) w = (w0, None)"
    and a2: "zip (get_paths self False) (class_numbers self) = before @ (Inr src, cls) # rest"
    and a3: "copy_loop os (class_dirs_for self train_dir) before w0 = (w1, None)"
    and a4: "py_index (class_dirs_for self train_dir) cls = Inr dst"
    and a5: "copy os w1 src dst = (w2, Some err)"
    by simp_all
  have "copy_files_helper os self (get_paths self False) train_dir (class_numbers self) w
          = (w2, Some err)"
    by (rule copy_files_helper_failure [OF a1 a2 a3 a4 a5])
  then show "copy_files os self train_dir test_dir w = (w2, Some err)"
    by (rule copy_files_training_failure)
next
  assume b: "copy_files_helper os self (get_paths self False) train_dir (class_numbers self) w
      = (v, None) \<and>
    makedirs_loop os (class_dirs_for self test_dir)
      (print os v (''- Copied training-set to: '' @ train_dir)) = (v0, None) \<and>
    zip (get_paths self True) (class_numbers_test self) = before' @ (Inr src', cls') # rest' \<and>
    copy_loop os (class_dirs_for self test_dir) before' v0 = (v1, None) \<and>
    py_index (class_dirs_for self test_dir) cls' = Inr dst' \<and>
    copy os v1 src' dst' = (v2, Some err')"
  then have b0: "copy_files_helper os self (get_paths self False) train_dir
        (class_numbers self) w = (v, None)"
    and b1: "makedirs_loop os (class_dirs_for self test_dir)
        (print os v (''- Copied training-set to: '' @ train_dir)) = (v0, None)"
    and b2: "zip (get_paths self True) (class_numbers_test self)
        = before' @ (Inr src', cls') # rest'"
    and b3: "copy_loop os (class_dirs_for self test_dir) before' v0 = (v1, None)"
    and b4: "py_index (class_dirs_for self test_dir) cls' = Inr dst'"
    and b5: "copy os v1 src' dst' = (v2, Some err')"
    by simp_all
  have "copy_files_helper os self (get_paths self True) test_dir (class_numbers_test self)
          (print os v (''- Copied training-set to: '' @ train_dir)) = (v2, Some err')"
    by (rule copy_files_helper_failure [OF b1 b2 b3 b4 b5])
  with b0 show "copy_files os self train_dir test_dir w = (v2, Some err')"
    by (rule copy_files_test_failure)
qed

theorem copy_files_stops_at_first_failure_witness:
  "copy_files (os_log [''/home/u/data/clouds-images/cirrus/C2.JPG'']) ds_clouds
       ''data/clouds-images/train/'' ''data/clouds-images/test/'' []
     = ([Makedirs ''data/clouds-images/train/cirrus/'',
         Makedirs ''data/clouds-images/train/cumulus/'',
         Copy ''/home/u/data/clouds-images/cirrus/c1.jpg'' ''data/clouds-images/train/cirrus/'',
         Copy ''/home/u/data/clouds-images/cirrus/C2.JPG'' ''data/clouds-images/train/cirrus/''],
        Some (OSError ''/home/u/data/clouds-images/cirrus/C2.JPG'')) \<and>
   copy_files (os_log [''/home/u/data/clouds-images/cirrus/test/c3.jpg'']) ds_clouds
       ''data/clouds-images/train/'' ''data/clouds-images/test/'' []
     = ([Makedirs ''data/clouds-images/train/cirrus/'',
         Makedirs ''data/clouds-images/train/cumulus/'',
         Copy ''/home/u/data/clouds-images/cirrus/c1.jpg'' ''data/clouds-images/train/cirrus/'',
         Copy ''/home/u/data/clouds-images/cirrus/C2.JPG'' ''data/clouds-images/train/cirrus/'',
         Copy ''/home/u/data/clouds-images/cumulus/k1.jpg'' ''data/clouds-images/train/cumulus/'',
         Print ''- Copied training-set to: data/clouds-images/train/'',
         Makedirs ''data/clouds-images/test/cirrus/'',
         Makedirs ''data/clouds-images/test/cumulus/'',
         Copy ''/home/u/data/clouds-images/cirrus/test/c3.jpg'' ''data/clouds-images/test/cirrus/''],
        Some (OSError ''/home/u/data/clouds-images/cirrus/test/c3.jpg''))"
proof -
  let ?os = "os_log [''/home/u/data/clouds-images/cirrus/C2.JPG'']"
  let ?ot = "os_log [''/home/u/data/clouds-images/cirrus/test/c3.jpg'']"
  let ?train = "''data/clouds-images/train/''"
  let ?test = "''data/clouds-images/test/''"
  let ?m1 = "Makedirs ''data/clouds-images/train/cirrus/''"
  let ?m2 = "Makedirs ''data/clouds-images/train/cumulus/''"
  let ?m3 = "Makedirs ''data/clouds-images/test/cirrus/''"
  let ?m4 = "Makedirs ''data/clouds-images/test/cumulus/''"
  let ?c1 = "Copy ''/home/u/data/clouds-images/cirrus/c1.jpg'' ''data/clouds-images/train/cirrus/''"
  let ?c2 = "Copy ''/home/u/data/clouds-images/cirrus/C2.JPG'' ''data/clouds-images/train/cirrus/''"
  let ?c3 = "Copy ''/home/u/data/clouds-images/cumulus/k1.jpg'' ''data/clouds-images/train/cumulus/''"
  let ?c4 = "Copy ''/home/u/data/clouds-images/cirrus/test/c3.jpg'' ''data/clouds-images/test/cirrus/''"
  let ?p = "Print ''- Copied training-set to: data/clouds-images/train/''"
  let ?e2 = "OSError ''/home/u/data/clouds-images/cirrus/C2.JPG''"
  let ?e4 = "OSError ''/home/u/data/clouds-images/cirrus/test/c3.jpg''"
  have a1: "makedirs_loop ?os (class_dirs_for ds_clouds ?train) [] = ([?m1, ?m2], None)"
    by code_simp
  have a2: "zip (get_paths ds_clouds False) (class_numbers ds_clouds)
      = [(Inr ''/home/u/data/clouds-images/cirrus/c1.jpg'', 0)]
        @ (Inr ''/home/u/data/clouds-images/cirrus/C2.JPG'', 0)
        # [(Inr ''/home/u/data/clouds-images/cumulus/k1.jpg'', 1)]"
    by code_simp
  have a3: "copy_loop ?os (class_dirs_for ds_clouds ?train)
      [(Inr ''/home/u/data/clouds-images/cirrus/c1.jpg'', 0)] [?m1, ?m2]
      = ([?m1, ?m2, ?c1], None)"
    by code_simp
  have a4: "py_index (class_dirs_for ds_clouds ?train) 0 = Inr ''data/clouds-images/train/cirrus/''"
    by code_simp
  have a5: "copy ?os [?m1, ?m2, ?c1] ''/home/u/data/clouds-images/cirrus/C2.JPG''
      ''data/clouds-images/train/cirrus/'' = ([?m1, ?m2, ?c1, ?c2], Some ?e2)"
    by code_simp
  note t = copy_files_stops_at_first_failure
    [where os = ?os and self = ds_clouds and train_dir = ?train and test_dir = ?test
       and w = "[]" and ?w0.0 = "[?m1, ?m2]"
       and before = "[(Inr ''/home/u/data/clouds-images/cirrus/c1.jpg'', 0)]"
       and src = "''/home/u/data/clouds-images/cirrus/C2.JPG''" and cls = 0
       and rest = "[(Inr ''/home/u/data/clouds-images/cumulus/k1.jpg'', 1)]"
       and ?w1.0 = "[?m1, ?m2, ?c1]" and dst = "''data/clouds-images/train/cirrus/''"
       and ?w2.0 = "[?m1, ?m2, ?c1, ?c2]" and err = ?e2]
  from t a1 a2 a3 a4 a5 have r1: "copy_files ?os ds_clouds ?train ?test []
      = ([?m1, ?m2, ?c1, ?c2], Some ?e2)"
    by blast
  have b1: "copy_files_helper ?ot ds_clouds (get_paths ds_clouds False) ?train
      (class_numbers ds_clouds) [] = ([?m1, ?m2, ?c1, ?c2, ?c3], None)"
    by code_simp
  have b2: "makedirs_loop ?ot (class_dirs_for ds_clouds ?test)
      (print ?ot [?m1, ?m2, ?c1, ?c2, ?c3] (''- Copied training-set to: '' @ ?train))
      = ([?m1, ?m2, ?c1, ?c2, ?c3, ?p, ?m3, ?m4], None)"
    by code_simp
  have b3: "zip (get_paths ds_clouds True) (class_numbers_test ds_clouds)
      = [] @ (Inr ''/home/u/data/clouds-images/cirrus/test/c3.jpg'', 0) # []"
    by code_simp
  have b4: "copy_loop ?ot (class_dirs_for ds_clouds ?test) []
      [?m1, ?m2, ?c1, ?c2, ?c3, ?p, ?m3, ?m4]
      = ([?m1, ?m2, ?c1, ?c2, ?c3, ?p, ?m3, ?m4], None)"
    by code_simp
  have b5: "py_index (class_dirs_for ds_clouds ?test) 0 = Inr ''data/clouds-images/test/cirrus/''"
    by code_simp
  have b6: "copy ?ot [?m1, ?m2, ?c1, ?c2, ?c3, ?p, ?m3, ?m4]
      ''/home/u/data/clouds-images/cirrus/test/c3.jpg'' ''data/clouds-images/test/cirrus/''
      = ([?m1, ?m2, ?c1, ?c2, ?c3, ?p, ?m3, ?m4, ?c4], Some ?e4)"
    by code_simp
  note u = copy_files_stops_at_first_failure
    [where os = ?ot and self = ds_clouds and train_dir = ?train and test_dir = ?test
       and w = "[]" and v = "[?m1, ?m2, ?c1, ?c2, ?c3]"
       and ?v0.0 = "[?m1, ?m2, ?c1, ?c2, ?c3, ?p, ?m3, ?m4]" and before' = "[]"
       and src' = "''/home/u/data/clouds-images/cirrus/test/c3.jpg''" and cls' = 0
       and rest' = "[]" and ?v1.0 = "[?m1, ?m2, ?c1, ?c2, ?c3, ?p, ?m3, ?m4]"
       and dst' = "''data/clouds-images/test/cirrus/''"
       and ?v2.0 = "[?m1, ?m2, ?c1, ?c2, ?c3, ?p, ?m3, ?m4, ?c4]" and err' = ?e4]
  from u b1 b2 b3 b4 b5 b6 have r2: "copy_files ?ot ds_clouds ?train ?test []
      = ([?m1, ?m2, ?c1, ?c2, ?c3, ?p, ?m3, ?m4, ?c4], Some ?e4)"
    by blast
  from r1 r2 show ?thesis
    by (rule conjI)
qed

text \<open>
  The claim as first stated asks that a failure on one file does not prevent attempting
  the remaining files. In the scenario, with a copy of \<^verbatim>\<open>C2.JPG\<close> that fails, the
  export stops after two copies with the one exception: \<^verbatim>\<open>k1.jpg\<close> and the test
  image \<^verbatim>\<open>c3.jpg\<close>, whose copies would succeed, are never attempted.
\<close>

theorem export_failure_counterexample:
  "copy_files (os_log [''/home/u/data/clouds-images/cirrus/C2.JPG'']) ds_clouds
       ''data/clouds-images/train/'' ''data/clouds-images/test/'' []
     = ([Makedirs ''data/clouds-images/train/cirrus/'',
         Makedirs ''data/clouds-images/train/cumulus/'',
         Copy ''/home/u/data/clouds-images/cirrus/c1.jpg'' ''data/clouds-images/train/cirrus/'',
         Copy ''/home/u/data/clouds-images/cirrus/C2.JPG'' ''data/clouds-images/train/cirrus/''],
        Some (OSError ''/home/u/data/clouds-images/cirrus/C2.JPG'')) \<and>
   get_paths ds_clouds False
     = [Inr ''/home/u/data/clouds-images/cirrus/c1.jpg'',
        Inr ''/home/u/data/clouds-images/cirrus/C2.JPG'',
        Inr ''/home/u/data/clouds-images/cumulus/k1.jpg''] \<and>
   get_paths ds_clouds True = [Inr ''/home/u/data/clouds-images/cirrus/test/c3.jpg''] \<and>
   Copy ''/home/u/data/clouds-images/cumulus/k1.jpg'' ''data/clouds-images/train/cumulus/''
     \<notin> set (fst (copy_files (os_log [''/home/u/data/clouds-images/cirrus/C2.JPG'']) ds_clouds
                      ''data/clouds-images/train/'' ''data/clouds-images/test/'' [])) \<and>
   Copy ''/home/u/data/clouds-images/cirrus/test/c3.jpg'' ''data/clouds-images/test/cirrus/''
     \<notin> set (fst (copy_files (os_log [''/home/u/data/clouds-images/cirrus/C2.JPG'']) ds_clouds
                      ''data/clouds-images/train/'' ''data/clouds-images/test/'' []))"
  by code_simp

text \<open>When no copy fails, every file of both splits is copied, in order.\<close>

lemma export_without_failure:
  "copy_files (os_log []) ds_clouds ''data/clouds-images/train/'' ''data/clouds-images/test/'' []
     = ([Makedirs ''data/clouds-images/train/cirrus/'',
         Makedirs ''data/clouds-images/train/cumulus/'',
         Copy ''/home/u/data/clouds-images/cirrus/c1.jpg'' ''data/clouds-images/train/cirrus/'',
         Copy ''/home/u/data/clouds-images/cirrus/C2.JPG'' ''data/clouds-images/train/cirrus/'',
         Copy ''/home/u/data/clouds-images/cumulus/k1.jpg'' ''data/clouds-images/train/cumulus/'',
         Print ''- Copied training-set to: data/clouds-images/train/'',
         Makedirs ''data/clouds-images/test/cirrus/'',
         Makedirs ''data/clouds-images/test/cumulus/'',
         Copy ''/home/u/data/clouds-images/cirrus/test/c3.jpg'' ''data/clouds-images/test/cirrus/'',
         Print ''- Copied test-set to: data/clouds-images/test/''],
        None)"
  by code_simp


end
